theory Spec2Isabelle
  imports Main "HOL-Library.AList"
begin

section \<open>JavaScript values\<close>

text \<open>
  The loader (\<^verbatim>\<open>littleconf.ts\<close>) works on untyped JavaScript values: parsed YAML, the
  default export of a code module, the caller's options object and its \<^verbatim>\<open>argv\<close> mapping.
  A value is one of the JSON shapes or \<^verbatim>\<open>undefined\<close>. An object is the list of its own
  enumerable properties in enumeration order; an array is the list of its slots, \<open>None\<close>
  being a hole (an index that is not a property, as \<^verbatim>\<open>delete a[i]\<close> leaves behind).
  Numbers are integers (below \<^verbatim>\<open>1e21\<close> in magnitude, which JavaScript writes in plain
  decimal); the code does no arithmetic on them. Inherited properties
  (\<^verbatim>\<open>toString\<close>, \<^verbatim>\<open>constructor\<close>), property reads on strings and arrays, and characters
  outside ASCII are outside this model.
\<close>

datatype json = JUndef | JNull | JBool bool | JNum int | JStr string
  | JArr "json option list" | JObj "(string \<times> json) list"

type_synonym obj = "(string \<times> json) list"

datatype error = TypeError string | IOError string | ParseError string | ImportError string

text \<open>Truthiness, as \<^verbatim>\<open>if (x)\<close>, \<^verbatim>\<open>!x\<close> and \<^verbatim>\<open>x || y\<close> test it.\<close>

fun truthy :: "json \<Rightarrow> bool" where
  "truthy JUndef = False"
| "truthy JNull = False"
| "truthy (JBool b) = b"
| "truthy (JNum n) = (n \<noteq> 0)"
| "truthy (JStr s) = (s \<noteq> [])"
| "truthy (JArr xs) = True"
| "truthy (JObj kvs) = True"

definition or_else :: "json \<Rightarrow> json \<Rightarrow> json" where
  \<comment> \<open>\<^verbatim>\<open>a || b\<close>\<close>
  "or_else a b = (if truthy a then a else b)"

text \<open>\<^verbatim>\<open>o[k]\<close> on an object: the own property, or \<^verbatim>\<open>undefined\<close>.\<close>

definition getprop :: "obj \<Rightarrow> string \<Rightarrow> json" where
  "getprop kvs k = (case map_of kvs k of Some v \<Rightarrow> v | None \<Rightarrow> JUndef)"

fun member :: "json \<Rightarrow> string \<Rightarrow> json" where
  "member (JObj kvs) k = getprop kvs k"
| "member v k = JUndef"

fun forin_keys :: "json \<Rightarrow> string list" where
  \<comment> \<open>the keys \<^verbatim>\<open>for (let key in v)\<close> visits that can match a name pattern\<close>
  "forin_keys (JObj kvs) = map fst kvs"
| "forin_keys v = []"

subsection \<open>Strings\<close>

fun join :: "string \<Rightarrow> string list \<Rightarrow> string" where
  "join sep [] = []"
| "join sep [x] = x"
| "join sep (x # y # ys) = x @ sep @ join sep (y # ys)"

fun split_on :: "char \<Rightarrow> string \<Rightarrow> string list" where
  \<comment> \<open>\<^verbatim>\<open>s.split(c)\<close>: never empty, \<^verbatim>\<open>''.split('.')\<close> is \<^verbatim>\<open>['']\<close>\<close>
  "split_on c [] = [[]]"
| "split_on c (x # xs) =
     (if x = c then [] # split_on c xs
      else (case split_on c xs of s # ss \<Rightarrow> (x # s) # ss | [] \<Rightarrow> [[x]]))"

definition digit_char :: "nat \<Rightarrow> char" where
  "digit_char n = ''0123456789'' ! (n mod 10)"

fun digits :: "nat \<Rightarrow> string" where
  "digits n = (if n < 10 then [digit_char n] else digits (n div 10) @ [digit_char n])"

declare digits.simps [simp del]

text \<open>
  String conversion, as \<^verbatim>\<open>'environments.' + env\<close>, a computed property key and
  \<^verbatim>\<open>RegExp.exec\<close> apply it to a value that is not a string.
\<close>

fun toStr :: "json \<Rightarrow> string" and toStr_items :: "json option list \<Rightarrow> string list" where
  "toStr JUndef = ''undefined''"
| "toStr JNull = ''null''"
| "toStr (JBool b) = (if b then ''true'' else ''false'')"
| "toStr (JNum n) = (if n < 0 then ''-'' @ digits (nat (- n)) else digits (nat n))"
| "toStr (JStr s) = s"
| "toStr (JArr xs) = join '','' (toStr_items xs)"
| "toStr (JObj kvs) = ''[object Object]''"
| "toStr_items [] = []"
| "toStr_items (None # xs) = [] # toStr_items xs"
| "toStr_items (Some v # xs) =
     (if v = JNull \<or> v = JUndef then [] else toStr v) # toStr_items xs"

text \<open>
  \<^verbatim>\<open>toUpperCase\<close>, character by character: the letters \<^verbatim>\<open>a\<close> to \<^verbatim>\<open>z\<close> change, every other
  character stays. This is what JavaScript does on ASCII; names with other characters
  (the upper case of a sharp s is \<^verbatim>\<open>SS\<close>) are outside the model.
\<close>

definition toUpperCase_char :: "char \<Rightarrow> char" where
  "toUpperCase_char c =
     (case map_of (zip ''abcdefghijklmnopqrstuvwxyz'' ''ABCDEFGHIJKLMNOPQRSTUVWXYZ'') c of
        Some u \<Rightarrow> u | None \<Rightarrow> c)"

definition upper_snake :: "string \<Rightarrow> string" where
  \<comment> \<open>\<^verbatim>\<open>s.toUpperCase().replace(/[^A-Z0-9]/g, '_')\<close>\<close>
  "upper_snake s =
     map (\<lambda>c. if toUpperCase_char c \<in> set ''ABCDEFGHIJKLMNOPQRSTUVWXYZ0123456789''
               then toUpperCase_char c else CHR ''_'') s"

definition scope_char :: "char \<Rightarrow> bool" where
  \<comment> \<open>the class \<^verbatim>\<open>[-_A-Za-z0-9]\<close>\<close>
  "scope_char c \<longleftrightarrow>
     c \<in> set ''-_ABCDEFGHIJKLMNOPQRSTUVWXYZabcdefghijklmnopqrstuvwxyz0123456789''"

definition scoped_name :: "string \<Rightarrow> string option" where
  \<comment> \<open>group 2 of \<^verbatim>\<open>/^@([-_A-Za-z0-9]+)\/([-_A-Za-z0-9]+)$/\<close>, when the string matches\<close>
  "scoped_name s =
     (case s of
        [] \<Rightarrow> None
      | c # rest \<Rightarrow>
          (let a = takeWhile (\<lambda>x. x \<noteq> CHR ''/'') rest; b = drop (Suc (length a)) rest
           in if c = CHR ''@'' \<and> a \<noteq> [] \<and> length a < length rest \<and> b \<noteq> []
                 \<and> list_all scope_char a \<and> list_all scope_char b
              then Some b else None))"

definition match_prefix :: "string \<Rightarrow> string \<Rightarrow> string option" where
  \<comment> \<open>group 1 of \<^verbatim>\<open>/^<prefix>(.*)$/\<close>; the dot matches no line terminator\<close>
  "match_prefix prefix key =
     (let rest = drop (length prefix) key
      in if take (length prefix) key = prefix \<and> CHR 0x0A \<notin> set rest \<and> CHR 0x0D \<notin> set rest
         then Some rest else None)"

definition ends_with_js :: "string \<Rightarrow> bool" where
  \<comment> \<open>\<^verbatim>\<open>/\.js$/.test(s)\<close>\<close>
  "ends_with_js s \<longleftrightarrow> take 3 (rev s) = ''sj.''"

section \<open>Library functions the loader calls\<close>

subsection \<open>Node's \<^verbatim>\<open>path\<close> module on POSIX\<close>

text \<open>
  The loader searches \<^verbatim>\<open>/etc\<close>, so paths are POSIX paths. \<^verbatim>\<open>path.isAbsolute\<close>,
  \<^verbatim>\<open>path.join\<close> and \<^verbatim>\<open>path.resolve\<close> reject an argument that is not a string with a
  \<^verbatim>\<open>TypeError\<close>; the string versions come first, the checked ones after.
\<close>

definition isAbsolute :: "string \<Rightarrow> bool" where
  "isAbsolute p \<longleftrightarrow> (case p of [] \<Rightarrow> False | c # cs \<Rightarrow> c = CHR ''/'')"

definition norm_step :: "bool \<Rightarrow> string list \<Rightarrow> string \<Rightarrow> string list" where
  "norm_step allowAboveRoot acc seg =
     (if seg = [] \<or> seg = ''.'' then acc
      else if seg = ''..'' then
        (if acc \<noteq> [] \<and> last acc \<noteq> ''..'' then butlast acc
         else if allowAboveRoot then acc @ [''..''] else acc)
      else acc @ [seg])"

definition normalize_segments :: "bool \<Rightarrow> string \<Rightarrow> string list" where
  "normalize_segments allowAboveRoot p = foldl (norm_step allowAboveRoot) [] (split_on CHR ''/'' p)"

definition normalizeString :: "bool \<Rightarrow> string \<Rightarrow> string" where
  "normalizeString allowAboveRoot p = join ''/'' (normalize_segments allowAboveRoot p)"

definition abs_path :: "string list \<Rightarrow> string" where
  "abs_path segs = ''/'' @ join ''/'' segs"

fun gather :: "string list \<Rightarrow> string \<times> bool" where
  \<comment> \<open>the arguments of \<^verbatim>\<open>path.resolve\<close> from the right, the working directory last\<close>
  "gather [] = ([], False)"
| "gather (p # ps) =
     (if p = [] then gather ps
      else if isAbsolute p then (p @ ''/'', True)
      else (case gather ps of (r, a) \<Rightarrow> (r @ p @ ''/'', a)))"

definition path_resolve :: "string \<Rightarrow> string list \<Rightarrow> string" where
  "path_resolve cwd args =
     (case gather (rev args @ [cwd]) of
        (r, a) \<Rightarrow>
          (if a then ''/'' @ normalizeString False r
           else if normalizeString True r = [] then ''.'' else normalizeString True r))"

definition path_normalize :: "string \<Rightarrow> string" where
  "path_normalize p =
     (if p = [] then ''.''
      else (let n = normalizeString (\<not> isAbsolute p) p; trailing = (last p = CHR ''/'')
            in if n = [] then (if isAbsolute p then ''/'' else if trailing then ''./'' else ''.'')
               else (if isAbsolute p then ''/'' else []) @ n @ (if trailing then ''/'' else [])))"

definition path_join :: "string list \<Rightarrow> string" where
  "path_join args = path_normalize (join ''/'' (filter (\<lambda>a. a \<noteq> []) args))"

subsection \<open>The \<^verbatim>\<open>objtools\<close> package\<close>

text \<open>
  Modelled from the spec: \<^verbatim>\<open>objtools.merge\<close>, an external package that is not part of the
  sources. Sources are merged into the target from left to right. For each key of a
  source, when the value already there and the incoming value are both mappings they
  are merged recursively; otherwise the incoming value replaces the one there (a
  sequence is replaced as a whole). A new key goes after the existing ones. The spec
  gives the contract for mappings only: a source that is not a mapping contributes no
  key here.
\<close>

fun merge2 :: "obj \<Rightarrow> obj \<Rightarrow> obj" where
  "merge2 t [] = t"
| "merge2 t ((k, v) # s) =
     merge2 (case (map_of t k, v) of
               (Some (JObj tv), JObj sv) \<Rightarrow> AList.update k (JObj (merge2 tv sv)) t
             | _ \<Rightarrow> AList.update k v t) s"

fun merge_source :: "obj \<Rightarrow> json \<Rightarrow> obj" where
  "merge_source t (JObj s) = merge2 t s"
| "merge_source t v = t"

definition objtools_merge :: "obj \<Rightarrow> json list \<Rightarrow> obj" where
  "objtools_merge t sources = foldl merge_source t sources"

text \<open>
  Modelled from the spec: \<^verbatim>\<open>objtools.getPath\<close>, of the same package. A dotted path is a
  string of segments separated by \<^verbatim>\<open>.\<close>; the value at the path is reached through
  nested mappings and is \<^verbatim>\<open>undefined\<close> when a segment is missing or the value on the
  way is not a mapping.
\<close>

fun get_segments :: "json \<Rightarrow> string list \<Rightarrow> json" where
  "get_segments v [] = v"
| "get_segments (JObj kvs) (k # ks) =
     (case map_of kvs k of Some v \<Rightarrow> get_segments v ks | None \<Rightarrow> JUndef)"
| "get_segments v (k # ks) = JUndef"

definition objtools_getPath :: "json \<Rightarrow> string \<Rightarrow> json" where
  "objtools_getPath v p = get_segments v (split_on CHR ''.'' p)"

text \<open>
  Modelled from the spec: \<^verbatim>\<open>objtools.setPath\<close>, of the same package. The assignment
  creates the intermediate mappings it needs; a value on the way that is not a mapping
  is overwritten by a new mapping (the last write wins).
\<close>

fun set_segments :: "obj \<Rightarrow> string list \<Rightarrow> json \<Rightarrow> obj" where
  "set_segments t [] v = t"
| "set_segments t [k] v = AList.update k v t"
| "set_segments t (k # k' # ks) v =
     AList.update k
       (JObj (set_segments (case map_of t k of Some (JObj sub) \<Rightarrow> sub | _ \<Rightarrow> []) (k' # ks) v)) t"

definition objtools_setPath :: "obj \<Rightarrow> string \<Rightarrow> json \<Rightarrow> obj" where
  "objtools_setPath t p v = set_segments t (split_on CHR ''.'' p) v"

section \<open>The process and the file system\<close>

text \<open>
  What the loader reads from outside: the environment variables in the order
  \<^verbatim>\<open>for (let key in process.env)\<close> visits them, the working directory, which paths
  exist, and what reading, parsing (\<^verbatim>\<open>JSON.parse\<close>, \<^verbatim>\<open>yaml.safeLoad\<close>) and importing a
  file give. Parsers and the module loader are external, so their results are part of
  this record; each may throw.
\<close>

record world =
  env :: "(string \<times> string) list"
  cwd :: string
  existsSync :: "string \<Rightarrow> bool"
  readFileSync :: "string \<Rightarrow> error + string"
  JSON_parse :: "string \<Rightarrow> error + json"
  yaml_safeLoad :: "string \<Rightarrow> error + json"
  import_default :: "string \<Rightarrow> error + json"

definition process_env :: "world \<Rightarrow> string \<Rightarrow> json" where
  \<comment> \<open>\<^verbatim>\<open>process.env[name]\<close>\<close>
  "process_env w name = (case map_of (env w) name of Some v \<Rightarrow> JStr v | None \<Rightarrow> JUndef)"

section \<open>The class \<^verbatim>\<open>LittleConf\<close>\<close>

text \<open>
  An instance holds the caller's options and three cached fields, \<^verbatim>\<open>undefined\<close> until
  computed. A method that may throw returns \<open>Inl\<close> of the error, and every method
  returns the instance as it has left it. Private methods lose their leading underscore.
\<close>

record littleconf =
  options :: obj
  projectName :: json
  environment :: json
  rootDir :: json

definition LittleConf :: "obj \<Rightarrow> littleconf" where
  "LittleConf opts = \<lparr>options = opts, projectName = JUndef, environment = JUndef, rootDir = JUndef\<rparr>"

definition bindS :: "(error + 'a) \<times> 's \<Rightarrow> ('a \<Rightarrow> 's \<Rightarrow> (error + 'b) \<times> 's) \<Rightarrow> (error + 'b) \<times> 's" where
  \<comment> \<open>run the rest on the value and the instance, unless the first part has thrown\<close>
  "bindS m f = (case m of (Inl e, s) \<Rightarrow> (Inl e, s) | (Inr x, s) \<Rightarrow> f x s)"

definition bindE :: "error + 'a \<Rightarrow> 's \<Rightarrow> ('a \<Rightarrow> (error + 'b) \<times> 's) \<Rightarrow> (error + 'b) \<times> 's" where
  "bindE r s f = (case r of Inl e \<Rightarrow> (Inl e, s) | Inr x \<Rightarrow> f x)"

definition getCLIArgument :: "littleconf \<Rightarrow> json \<Rightarrow> json" where
  "getCLIArgument lc name =
     (if truthy (getprop (options lc) ''argv'')
      then member (getprop (options lc) ''argv'') (toStr name)
      else JUndef)"

subsection \<open>Project root directory and project name\<close>

text \<open>
  In \<^verbatim>\<open>_findProjectRootDir\<close> the directory \<^verbatim>\<open>dir\<close> starts as
  \<^verbatim>\<open>path.resolve(process.cwd())\<close> and is replaced by \<^verbatim>\<open>path.resolve(dir, '..')\<close> until that
  changes nothing. It is an absolute normalized path throughout, kept here as the list
  of its segments: the parent drops the last segment, and the root is its own parent.
\<close>

function walkUp :: "world \<Rightarrow> string list \<Rightarrow> string option" where
  "walkUp w segs =
     (if existsSync w (path_join [abs_path segs, ''package.json'']) then Some (abs_path segs)
      else if segs = [] then None
      else walkUp w (butlast segs))"
  by pat_completeness auto
termination
  by (relation "measure (\<lambda>(w, segs). length segs)") auto

declare walkUp.simps [simp del]

definition findProjectRootDir :: "world \<Rightarrow> littleconf \<Rightarrow> json" where
  "findProjectRootDir w lc =
     (if truthy (getprop (options lc) ''rootDir'') then getprop (options lc) ''rootDir''
      else (let mainModuleSegs = normalize_segments False (cwd w)
            in case walkUp w mainModuleSegs of
                 Some dir \<Rightarrow> JStr dir
               | None \<Rightarrow> JStr (abs_path mainModuleSegs)))"

definition getProjectRootDir :: "world \<Rightarrow> littleconf \<Rightarrow> json \<times> littleconf" where
  "getProjectRootDir w lc =
     (if truthy (rootDir lc) then (rootDir lc, lc)
      else (findProjectRootDir w lc, lc\<lparr>rootDir := findProjectRootDir w lc\<rparr>))"

definition path_join_checked :: "json \<Rightarrow> string \<Rightarrow> error + string" where
  "path_join_checked dir name =
     (case dir of JStr d \<Rightarrow> Inr (path_join [d, name])
      | _ \<Rightarrow> Inl (TypeError ''The path argument must be of type string''))"

definition finish_name :: "json \<Rightarrow> json" where
  \<comment> \<open>the end of \<^verbatim>\<open>_findProjectName\<close>: the fallback and the scope prefix\<close>
  "finish_name name =
     (if \<not> truthy name then JStr ''project''
      else (case scoped_name (toStr name) of Some n \<Rightarrow> JStr n | None \<Rightarrow> name))"

definition package_name :: "world \<Rightarrow> string \<Rightarrow> error + json" where
  \<comment> \<open>\<^verbatim>\<open>JSON.parse(fs.readFileSync(pkgPath).toString('utf8')).name\<close>, when truthy\<close>
  "package_name w pkgPath =
     (case readFileSync w pkgPath of
        Inl e \<Rightarrow> Inl e
      | Inr text \<Rightarrow>
          (case JSON_parse w text of
             Inl e \<Rightarrow> Inl e
           | Inr pkg \<Rightarrow>
               (if pkg = JNull \<or> pkg = JUndef
                then Inl (TypeError ''Cannot read properties of null'')
                else Inr (if truthy (member pkg ''name'') then member pkg ''name'' else JUndef))))"

definition findProjectName :: "world \<Rightarrow> littleconf \<Rightarrow> (error + json) \<times> littleconf" where
  "findProjectName w lc =
     (if truthy (getprop (options lc) ''projectName'')
      then (Inr (finish_name (getprop (options lc) ''projectName'')), lc)
      else (case getProjectRootDir w lc of
              (root, lc1) \<Rightarrow>
                bindE (path_join_checked root ''package.json'') lc1 (\<lambda>pkgPath.
                  if existsSync w pkgPath
                  then bindE (package_name w pkgPath) lc1 (\<lambda>name. (Inr (finish_name name), lc1))
                  else (Inr (finish_name JUndef), lc1))))"

definition getProjectName :: "world \<Rightarrow> littleconf \<Rightarrow> (error + json) \<times> littleconf" where
  "getProjectName w lc =
     (if truthy (projectName lc) then (Inr (projectName lc), lc)
      else bindS (findProjectName w lc) (\<lambda>name lc1. (Inr name, lc1\<lparr>projectName := name\<rparr>)))"

definition project_prefix :: "world \<Rightarrow> littleconf \<Rightarrow> (error + string) \<times> littleconf" where
  \<comment> \<open>\<^verbatim>\<open>this.getProjectName().toUpperCase().replace(/[^A-Z0-9]/g, '_')\<close>\<close>
  "project_prefix w lc =
     bindS (getProjectName w lc) (\<lambda>name lc1.
       case name of
         JStr n \<Rightarrow> (Inr (upper_snake n), lc1)
       | _ \<Rightarrow> (Inl (TypeError ''toUpperCase is not a function''), lc1))"

definition env_var_name :: "world \<Rightarrow> littleconf \<Rightarrow> string \<Rightarrow> string \<Rightarrow> (error + string) \<times> littleconf" where
  \<comment> \<open>\<^verbatim>\<open>this.options[opt] || (<project prefix> + suffix)\<close>, as a property key\<close>
  "env_var_name w lc opt suffix =
     (if truthy (getprop (options lc) opt) then (Inr (toStr (getprop (options lc) opt)), lc)
      else bindS (project_prefix w lc) (\<lambda>p lc1. (Inr (p @ suffix), lc1)))"

subsection \<open>The config environment\<close>

definition findConfigEnvironment :: "world \<Rightarrow> littleconf \<Rightarrow> (error + json) \<times> littleconf" where
  "findConfigEnvironment w lc =
     (if truthy (getprop (options lc) ''environmentOverride'')
      then (Inr (getprop (options lc) ''environmentOverride''), lc)
      else (let cliEnv = getCLIArgument lc
                  (or_else (getprop (options lc) ''cliArgumentEnvironment'') (JStr ''config-env''))
            in if truthy cliEnv then (Inr cliEnv, lc)
               else bindS (env_var_name w lc ''envVariableEnvironment'' ''_ENV'') (\<lambda>envVarName lc1.
                      if truthy (process_env w envVarName) then (Inr (process_env w envVarName), lc1)
                      else if truthy (process_env w ''NODE_ENV'')
                      then (Inr (process_env w ''NODE_ENV''), lc1)
                      else (Inr (or_else (getprop (options lc) ''defaultEnvironment'') (JStr ''local'')),
                            lc1))))"

definition getConfigEnvironment :: "world \<Rightarrow> littleconf \<Rightarrow> (error + json) \<times> littleconf" where
  "getConfigEnvironment w lc =
     (if truthy (environment lc) then (Inr (environment lc), lc)
      else bindS (findConfigEnvironment w lc) (\<lambda>e lc1. (Inr e, lc1\<lparr>environment := e\<rparr>)))"

subsection \<open>Loading a file, merging, resolving a path\<close>

text \<open>
  \<^verbatim>\<open>_loadFile\<close> receives what \<^verbatim>\<open>_resolvePath\<close> returned: a path or \<^verbatim>\<open>null\<close> (\<open>None\<close>).
  \<^verbatim>\<open>typeof result === 'object'\<close> holds of \<^verbatim>\<open>null\<close>, arrays and objects.
\<close>

fun typeof_object :: "json \<Rightarrow> bool" where
  "typeof_object JNull = True"
| "typeof_object (JArr xs) = True"
| "typeof_object (JObj kvs) = True"
| "typeof_object v = False"

definition loadFile :: "world \<Rightarrow> string option \<Rightarrow> error + json" where
  "loadFile w filename =
     (case filename of
        None \<Rightarrow> Inr (JObj [])
      | Some f \<Rightarrow>
          (if f = [] then Inr (JObj [])
           else if \<not> existsSync w f then Inr (JObj [])
           else if ends_with_js f then import_default w f
           else (case readFileSync w f of
                   Inl e \<Rightarrow> Inl e
                 | Inr data \<Rightarrow>
                     (case yaml_safeLoad w data of
                        Inl e \<Rightarrow> Inl e
                      | Inr result \<Rightarrow>
                          (if \<not> typeof_object result \<or> \<not> truthy result then Inr (JObj [])
                           else Inr result)))))"

fun removeNulls :: "json \<Rightarrow> json"
  and removeNulls_props :: "(string \<times> json) list \<Rightarrow> (string \<times> json) list"
  and removeNulls_items :: "json option list \<Rightarrow> json option list" where
  "removeNulls (JObj kvs) = JObj (removeNulls_props kvs)"
| "removeNulls (JArr xs) = JArr (removeNulls_items xs)"
| "removeNulls v = v"
| "removeNulls_props [] = []"
| "removeNulls_props ((k, v) # kvs) =
     (if v = JNull then removeNulls_props kvs else (k, removeNulls v) # removeNulls_props kvs)"
| "removeNulls_items [] = []"
| "removeNulls_items (None # xs) = None # removeNulls_items xs"
| "removeNulls_items (Some v # xs) =
     (if v = JNull then None # removeNulls_items xs
      else Some (removeNulls v) # removeNulls_items xs)"

definition mergeConfig :: "json list \<Rightarrow> obj" where
  \<comment> \<open>\<^verbatim>\<open>merged\<close> is the target \<^verbatim>\<open>{}\<close> of the merge, so \<^verbatim>\<open>removeNulls\<close> walks an object\<close>
  "mergeConfig configs = removeNulls_props (objtools_merge [] configs)"

fun array_items :: "json \<Rightarrow> json list" where
  \<comment> \<open>\<^verbatim>\<open>Array.isArray(x) ? x : [ x ]\<close>, as \<^verbatim>\<open>for ... of\<close> reads it\<close>
  "array_items (JArr xs) = map (\<lambda>x. case x of None \<Rightarrow> JUndef | Some v \<Rightarrow> v) xs"
| "array_items v = [v]"

definition absolutePath :: "world \<Rightarrow> json \<Rightarrow> json \<Rightarrow> error + string" where
  \<comment> \<open>\<^verbatim>\<open>path.isAbsolute(filename) ? filename : path.resolve(searchPath, filename)\<close>\<close>
  "absolutePath w searchPath filename =
     (case filename of
        JStr f \<Rightarrow>
          (if isAbsolute f then Inr f
           else (case searchPath of
                   JStr d \<Rightarrow> Inr (path_resolve (cwd w) [d, f])
                 | _ \<Rightarrow> Inl (TypeError ''The paths[0] argument must be of type string'')))
      | _ \<Rightarrow> Inl (TypeError ''The path argument must be of type string''))"

fun resolve_in :: "world \<Rightarrow> json \<Rightarrow> json list \<Rightarrow> error + string option" where
  \<comment> \<open>the inner loop, over the file names\<close>
  "resolve_in w searchPath [] = Inr None"
| "resolve_in w searchPath (filename # filenames) =
     (case absolutePath w searchPath filename of
        Inl e \<Rightarrow> Inl e
      | Inr p \<Rightarrow> if existsSync w p then Inr (Some p) else resolve_in w searchPath filenames)"

fun resolve_over :: "world \<Rightarrow> json list \<Rightarrow> json list \<Rightarrow> error + string option" where
  \<comment> \<open>the outer loop, over the search paths\<close>
  "resolve_over w [] filenames = Inr None"
| "resolve_over w (searchPath # searchPaths) filenames =
     (case resolve_in w searchPath filenames of
        Inl e \<Rightarrow> Inl e
      | Inr (Some p) \<Rightarrow> Inr (Some p)
      | Inr None \<Rightarrow> resolve_over w searchPaths filenames)"

definition resolvePath :: "world \<Rightarrow> json \<Rightarrow> json \<Rightarrow> error + string option" where
  "resolvePath w filenames searchPaths =
     resolve_over w (array_items searchPaths) (array_items filenames)"

subsection \<open>\<^verbatim>\<open>loadConfig\<close>\<close>

definition defaults_candidates :: "world \<Rightarrow> littleconf \<Rightarrow> (error + json) \<times> littleconf" where
  "defaults_candidates w lc =
     (if truthy (getprop (options lc) ''defaultsFilename'')
      then (Inr (getprop (options lc) ''defaultsFilename''), lc)
      else bindS (getProjectName w lc) (\<lambda>name lc1.
             (Inr (JArr [Some (JStr (toStr name @ ''-defaults.conf'')),
                         Some (JStr (toStr name @ ''-defaults.conf.js''))]), lc1)))"

definition main_candidates :: "world \<Rightarrow> littleconf \<Rightarrow> (error + json) \<times> littleconf" where
  "main_candidates w lc =
     (let fromCLI = or_else (getprop (options lc) ''filenameOverride'')
                      (getCLIArgument lc (or_else (getprop (options lc) ''cliArgumentFile'') (JStr ''c'')))
      in if truthy fromCLI then (Inr fromCLI, lc)
         else bindS (env_var_name w lc ''envVariableFile'' ''_CONFIG'') (\<lambda>envVar lc1.
                (let fromEnv = or_else (process_env w envVar) (getprop (options lc) ''filename'')
                 in if truthy fromEnv then (Inr fromEnv, lc1)
                    else bindS (getProjectName w lc1) (\<lambda>name lc2.
                           (Inr (JArr [Some (JStr (toStr name @ ''.conf'')),
                                       Some (JStr (toStr name @ ''.conf.js''))]), lc2)))))"

fun env_overrides :: "string \<Rightarrow> (string \<times> string) list \<Rightarrow> obj \<Rightarrow> obj" where
  \<comment> \<open>the loop over \<^verbatim>\<open>process.env\<close>\<close>
  "env_overrides prefix [] overrides = overrides"
| "env_overrides prefix ((key, val) # rest) overrides =
     env_overrides prefix rest
       (case match_prefix prefix key of
          Some r \<Rightarrow> objtools_setPath overrides r (JStr val)
        | None \<Rightarrow> overrides)"

fun argv_overrides :: "json \<Rightarrow> string list \<Rightarrow> obj \<Rightarrow> obj" where
  \<comment> \<open>the loop over the keys of \<^verbatim>\<open>this.options.argv || {}\<close>\<close>
  "argv_overrides argv [] overrides = overrides"
| "argv_overrides argv (key # keys) overrides =
     argv_overrides argv keys
       (case match_prefix ''config-setting-'' key of
          Some r \<Rightarrow> objtools_setPath overrides r (member argv key)
        | None \<Rightarrow> overrides)"

definition collect_overrides :: "world \<Rightarrow> littleconf \<Rightarrow> (error + obj) \<times> littleconf" where
  "collect_overrides w lc =
     bindS (project_prefix w lc) (\<lambda>p lc1.
       (Inr (argv_overrides (getprop (options lc) ''argv'')
               (forin_keys (or_else (getprop (options lc) ''argv'') (JObj [])))
               (env_overrides (p @ ''_CONFIG_'') (env w) [])), lc1))"

definition environment_block :: "json \<Rightarrow> json \<Rightarrow> json" where
  \<comment> \<open>\<^verbatim>\<open>objtools.getPath(config, 'environments.' + env) || {}\<close>\<close>
  "environment_block config e =
     or_else (objtools_getPath config (''environments.'' @ toStr e)) (JObj [])"

definition load_defaults :: "world \<Rightarrow> littleconf \<Rightarrow> (error + json) \<times> littleconf" where
  \<comment> \<open>the first block of \<^verbatim>\<open>loadConfig\<close>: the value of \<^verbatim>\<open>defaultsConfig\<close>\<close>
  "load_defaults w lc =
     bindS (defaults_candidates w lc) (\<lambda>defaultsFilename lc1.
      (let (root, lc2) = getProjectRootDir w lc1 in
       bindE (resolvePath w defaultsFilename root) lc2 (\<lambda>defaultsPath.
       bindE (loadFile w defaultsPath) lc2 (\<lambda>defaultsConfig.
         (Inr defaultsConfig, lc2)))))"

definition load_main :: "world \<Rightarrow> littleconf \<Rightarrow> (error + json) \<times> littleconf" where
  \<comment> \<open>the second block: the value of \<^verbatim>\<open>mainConfig\<close>\<close>
  "load_main w lc =
     bindS (main_candidates w lc) (\<lambda>mainFilename lc1.
      (let (root, lc2) = getProjectRootDir w lc1 in
       bindE (resolvePath w mainFilename (JArr [Some root, Some (JStr ''/etc'')])) lc2 (\<lambda>mainPath.
       bindE (if mainPath \<noteq> None \<and> mainPath \<noteq> Some [] then loadFile w mainPath
              else Inr (JObj [])) lc2 (\<lambda>mainConfig.
         (Inr mainConfig, lc2)))))"

definition loadConfig :: "world \<Rightarrow> littleconf \<Rightarrow> (error + obj) \<times> littleconf" where
  "loadConfig w lc =
     bindS (load_defaults w lc) (\<lambda>defaultsConfig lc1.
     bindS (load_main w lc1) (\<lambda>mainConfig lc2.
     bindS (collect_overrides w lc2) (\<lambda>overrides lc3.
     bindS (getConfigEnvironment w lc3) (\<lambda>e lc4.
       (Inr (AList.delete ''environments''
               (mergeConfig [defaultsConfig, environment_block defaultsConfig e,
                             mainConfig, environment_block mainConfig e,
                             JObj overrides])), lc4)))))"

section \<open>The memoized wrapper \<^verbatim>\<open>getConfig\<close>\<close>

subsection \<open>\<^verbatim>\<open>JSON.stringify\<close>\<close>

text \<open>
  The serialization of a value: a property whose value is \<^verbatim>\<open>undefined\<close> is left out, an
  array slot that is a hole or \<^verbatim>\<open>undefined\<close> is written \<^verbatim>\<open>null\<close>, properties come in
  enumeration order, and a string is quoted with the JSON escapes.
\<close>

definition hex_digit :: "int \<Rightarrow> char" where
  "hex_digit n = ''0123456789abcdef'' ! nat (n mod 16)"

fun hex :: "nat \<Rightarrow> int \<Rightarrow> string" where
  "hex 0 n = []"
| "hex (Suc k) n = hex k (n div 16) @ [hex_digit n]"

definition json_escape :: "char \<Rightarrow> string" where
  "json_escape c =
     (if c = CHR 0x22 then [CHR 0x5C, CHR 0x22]
      else if c = CHR 0x5C then [CHR 0x5C, CHR 0x5C]
      else if c = CHR 0x08 then [CHR 0x5C, CHR ''b'']
      else if c = CHR 0x09 then [CHR 0x5C, CHR ''t'']
      else if c = CHR 0x0A then [CHR 0x5C, CHR ''n'']
      else if c = CHR 0x0C then [CHR 0x5C, CHR ''f'']
      else if c = CHR 0x0D then [CHR 0x5C, CHR ''r'']
      else if (of_char c :: nat) < 32 then [CHR 0x5C, CHR ''u'', CHR ''0'', CHR ''0''] @ hex 2 (of_char c)
      else [c])"

definition json_quote :: "string \<Rightarrow> string" where
  "json_quote s = [CHR 0x22] @ concat (map json_escape s) @ [CHR 0x22]"

fun stringify :: "json \<Rightarrow> string option"
  and stringify_props :: "(string \<times> json) list \<Rightarrow> string list"
  and stringify_items :: "json option list \<Rightarrow> string list" where
  "stringify JUndef = None"
| "stringify JNull = Some ''null''"
| "stringify (JBool b) = Some (if b then ''true'' else ''false'')"
| "stringify (JNum n) = Some (toStr (JNum n))"
| "stringify (JStr s) = Some (json_quote s)"
| "stringify (JArr xs) = Some (''['' @ join '','' (stringify_items xs) @ '']'')"
| "stringify (JObj kvs) = Some (''{'' @ join '','' (stringify_props kvs) @ ''}'')"
| "stringify_props [] = []"
| "stringify_props ((k, v) # kvs) =
     (case stringify v of
        None \<Rightarrow> stringify_props kvs
      | Some s \<Rightarrow> (json_quote k @ '':'' @ s) # stringify_props kvs)"
| "stringify_items [] = []"
| "stringify_items (None # xs) = ''null'' # stringify_items xs"
| "stringify_items (Some v # xs) =
     (case stringify v of None \<Rightarrow> ''null'' | Some s \<Rightarrow> s) # stringify_items xs"

definition JSON_stringify :: "obj \<Rightarrow> string" where
  "JSON_stringify opts = ''{'' @ join '','' (stringify_props opts) @ ''}''"

subsection \<open>The \<^verbatim>\<open>sha1\<close> package\<close>

text \<open>
  \<^verbatim>\<open>sha1(message)\<close> is the SHA-1 digest of the bytes of the message, written as 40
  lowercase hexadecimal digits. The package is external; the digest is computed here
  as the standard defines it, on 32-bit words kept as integers with the wrap-around
  written out.
\<close>

unbundle bit_operations_syntax

definition u32 :: "int \<Rightarrow> int" where
  "u32 x = x mod 4294967296"

definition rotl :: "nat \<Rightarrow> int \<Rightarrow> int" where
  "rotl n x = u32 (x * 2 ^ n) + x div 2 ^ (32 - n)"

definition sha1_f :: "nat \<Rightarrow> int \<Rightarrow> int \<Rightarrow> int \<Rightarrow> int" where
  "sha1_f i b c d =
     (if i < 20 then (b AND c) OR ((4294967295 - b) AND d)
      else if i < 40 then b XOR c XOR d
      else if i < 60 then (b AND c) OR (b AND d) OR (c AND d)
      else b XOR c XOR d)"

definition sha1_k :: "nat \<Rightarrow> int" where
  "sha1_k i =
     (if i < 20 then 0x5A827999 else if i < 40 then 0x6ED9EBA1
      else if i < 60 then 0x8F1BBCDC else 0xCA62C1D6)"

fun sha1_extend :: "nat \<Rightarrow> int list \<Rightarrow> int list" where
  "sha1_extend 0 ws = ws"
| "sha1_extend (Suc n) ws =
     sha1_extend n
       (ws @ [rotl 1 (ws ! (length ws - 3) XOR ws ! (length ws - 8)
                      XOR ws ! (length ws - 14) XOR ws ! (length ws - 16))])"

fun sha1_rounds :: "nat \<Rightarrow> int list \<Rightarrow> int \<times> int \<times> int \<times> int \<times> int \<Rightarrow> int \<times> int \<times> int \<times> int \<times> int" where
  "sha1_rounds i [] s = s"
| "sha1_rounds i (x # xs) (a, b, c, d, e) =
     sha1_rounds (Suc i) xs
       (u32 (rotl 5 a + sha1_f i b c d + e + sha1_k i + x), a, rotl 30 b, c, d)"

fun be_words :: "int list \<Rightarrow> int list" where
  "be_words (b0 # b1 # b2 # b3 # bs) = (((b0 * 256 + b1) * 256 + b2) * 256 + b3) # be_words bs"
| "be_words bs = []"

definition sha1_block :: "int \<times> int \<times> int \<times> int \<times> int \<Rightarrow> int list \<Rightarrow> int \<times> int \<times> int \<times> int \<times> int" where
  "sha1_block h block =
     (case h of (h0, h1, h2, h3, h4) \<Rightarrow>
        (case sha1_rounds 0 (sha1_extend 64 (be_words block)) h of
           (a, b, c, d, e) \<Rightarrow> (u32 (h0 + a), u32 (h1 + b), u32 (h2 + c), u32 (h3 + d), u32 (h4 + e))))"

fun sha1_blocks :: "nat \<Rightarrow> int \<times> int \<times> int \<times> int \<times> int \<Rightarrow> int list \<Rightarrow> int \<times> int \<times> int \<times> int \<times> int" where
  "sha1_blocks 0 h bytes = h"
| "sha1_blocks (Suc n) h bytes = sha1_blocks n (sha1_block h (take 64 bytes)) (drop 64 bytes)"

fun be_bytes :: "nat \<Rightarrow> int \<Rightarrow> int list" where
  "be_bytes 0 n = []"
| "be_bytes (Suc k) n = be_bytes k (n div 256) @ [n mod 256]"

definition sha1_pad :: "int list \<Rightarrow> int list" where
  "sha1_pad bytes =
     bytes @ [128] @ replicate ((119 - length bytes mod 64) mod 64) 0
       @ be_bytes 8 (8 * int (length bytes))"

definition sha1 :: "string \<Rightarrow> string" where
  "sha1 message =
     (let bytes = sha1_pad (map of_char message)
      in case sha1_blocks (length bytes div 64)
                (0x67452301, 0xEFCDAB89, 0x98BADCFE, 0x10325476, 0xC3D2E1F0) bytes of
           (h0, h1, h2, h3, h4) \<Rightarrow> concat (map (hex 8) [h0, h1, h2, h3, h4]))"

subsection \<open>\<^verbatim>\<open>getConfig\<close>\<close>

text \<open>
  What \<^verbatim>\<open>getConfig\<close> returns is an object, and two calls can return the same object or
  two objects with the same content. The module state therefore has two parts: the
  objects that the calls of \<^verbatim>\<open>loadConfig\<close> have created, in the order of their creation,
  an object being known by its position in that list (its reference); and the
  module-level variable \<^verbatim>\<open>configCache\<close>, which maps the hash of the serialized options to
  the reference of a result of \<^verbatim>\<open>loadConfig\<close>. A module starts with \<^verbatim>\<open>configCache = {}\<close>.
\<close>

type_synonym ref = nat

record module_state =
  objects :: "obj list"
  configCache :: "string \<rightharpoonup> ref"

definition initial_state :: module_state where
  "initial_state = \<lparr>objects = [], configCache = Map.empty\<rparr>"

text \<open>
  A reference to an object is truthy, so the test \<^verbatim>\<open>if (configCache[optionsHash])\<close> asks
  whether the slot is filled, and then the stored reference is returned. Otherwise
  \<^verbatim>\<open>loadConfig\<close> runs; its result is a new object (\<^verbatim>\<open>_mergeConfig\<close> merges into a fresh
  \<^verbatim>\<open>{}\<close>), whose reference is assigned to the slot after \<^verbatim>\<open>await lc.loadConfig()\<close> has
  returned, and returned. When \<^verbatim>\<open>loadConfig\<close> throws, the assignment does not happen.
  Calls are taken one after the other.
\<close>

definition getConfig :: "world \<Rightarrow> module_state \<Rightarrow> obj \<Rightarrow> (error + ref) \<times> module_state" where
  "getConfig w s opts =
     (let optionsHash = sha1 (JSON_stringify opts)
      in case configCache s optionsHash of
           Some cached \<Rightarrow> (Inr cached, s)
         | None \<Rightarrow>
             (case fst (loadConfig w (LittleConf opts)) of
                Inl e \<Rightarrow> (Inl e, s)
              | Inr config \<Rightarrow>
                  (Inr (length (objects s)),
                   s\<lparr>objects := objects s @ [config],
                     configCache := (configCache s)(optionsHash \<mapsto> length (objects s))\<rparr>)))"

section \<open>Notions the properties are stated with\<close>

text \<open>
  A value is well formed when the keys of every object in it are distinct, as the own
  properties of a JavaScript object are.
\<close>

fun wf_json :: "json \<Rightarrow> bool"
  and wf_props :: "(string \<times> json) list \<Rightarrow> bool"
  and wf_items :: "json option list \<Rightarrow> bool" where
  "wf_json (JObj kvs) = (distinct (map fst kvs) \<and> wf_props kvs)"
| "wf_json (JArr xs) = wf_items xs"
| "wf_json v = True"
| "wf_props [] = True"
| "wf_props ((k, v) # kvs) = (wf_json v \<and> wf_props kvs)"
| "wf_items [] = True"
| "wf_items (None # xs) = wf_items xs"
| "wf_items (Some v # xs) = (wf_json v \<and> wf_items xs)"

text \<open>\<open>has_null v\<close>: some key of \<open>v\<close>, at some depth, has the value \<^verbatim>\<open>null\<close>.\<close>

fun has_null :: "json \<Rightarrow> bool"
  and has_null_props :: "(string \<times> json) list \<Rightarrow> bool"
  and has_null_items :: "json option list \<Rightarrow> bool" where
  "has_null (JObj kvs) = has_null_props kvs"
| "has_null (JArr xs) = has_null_items xs"
| "has_null v = False"
| "has_null_props [] = False"
| "has_null_props ((k, v) # kvs) = (v = JNull \<or> has_null v \<or> has_null_props kvs)"
| "has_null_items [] = False"
| "has_null_items (None # xs) = has_null_items xs"
| "has_null_items (Some v # xs) = (v = JNull \<or> has_null v \<or> has_null_items xs)"

text \<open>
  The value under a sequence of keys (property names and array indices); \<open>None\<close> when
  a key on the way is absent.
\<close>

datatype key = Key string | Index nat

fun lookup_path :: "json \<Rightarrow> key list \<Rightarrow> json option" where
  "lookup_path v [] = Some v"
| "lookup_path (JObj kvs) (Key k # p) =
     (case map_of kvs k of Some v \<Rightarrow> lookup_path v p | None \<Rightarrow> None)"
| "lookup_path (JArr xs) (Index i # p) =
     (if i < length xs then (case xs ! i of Some v \<Rightarrow> lookup_path v p | None \<Rightarrow> None)
      else None)"
| "lookup_path v (k # p) = None"

text \<open>The segments of a normalized absolute path: no empty one, no dot, no dot-dot, no separator.\<close>

definition clean_segment :: "string \<Rightarrow> bool" where
  "clean_segment s \<longleftrightarrow> s \<noteq> [] \<and> s \<noteq> ''.'' \<and> s \<noteq> ''..'' \<and> CHR ''/'' \<notin> set s"

text \<open>
  Two dotted paths overlap when one is a prefix of the other; a variable is apart from
  the path \<open>rest\<close> when it does not match the prefix or its own path does not overlap
  \<open>rest\<close>.
\<close>

fun overlaps :: "string list \<Rightarrow> string list \<Rightarrow> bool" where
  "overlaps [] q = True"
| "overlaps p [] = True"
| "overlaps (a # p) (b # q) = (a = b \<and> overlaps p q)"

definition apart :: "string \<Rightarrow> string \<Rightarrow> string \<times> string \<Rightarrow> bool" where
  "apart prefix rest kv =
     (case match_prefix prefix (fst kv) of
        None \<Rightarrow> True
      | Some r \<Rightarrow> \<not> overlaps (split_on CHR ''.'' rest) (split_on CHR ''.'' r))"

text \<open>A scalar is a boolean, a number or a string.\<close>

fun scalar :: "json \<Rightarrow> bool" where
  "scalar (JBool b) = True"
| "scalar (JNum n) = True"
| "scalar (JStr s) = True"
| "scalar v = False"

text \<open>
  Deep equality: the same scalars, arrays equal slot by slot, and objects with the same
  number of keys whose values are deep-equal key by key, in whatever order the keys
  come.
\<close>

fun deep_equal :: "json \<Rightarrow> json \<Rightarrow> bool"
  and deep_equal_props :: "(string \<times> json) list \<Rightarrow> (string \<times> json) list \<Rightarrow> bool"
  and deep_equal_items :: "json option list \<Rightarrow> json option list \<Rightarrow> bool" where
  "deep_equal (JObj a) v =
     (case v of JObj b \<Rightarrow> length a = length b \<and> deep_equal_props a b | _ \<Rightarrow> False)"
| "deep_equal (JArr xs) v = (case v of JArr ys \<Rightarrow> deep_equal_items xs ys | _ \<Rightarrow> False)"
| "deep_equal u v = (u = v)"
| "deep_equal_props [] b = True"
| "deep_equal_props ((k, u) # a) b =
     ((case map_of b k of Some v \<Rightarrow> deep_equal u v | None \<Rightarrow> False) \<and> deep_equal_props a b)"
| "deep_equal_items [] ys = (ys = [])"
| "deep_equal_items (x # xs) ys =
     (case ys of
        [] \<Rightarrow> False
      | y # ys' \<Rightarrow>
          (case (x, y) of
             (None, None) \<Rightarrow> True
           | (Some u, Some v) \<Rightarrow> deep_equal u v
           | _ \<Rightarrow> False) \<and> deep_equal_items xs ys')"

definition c3_configs :: "json list" where
  "c3_configs =
     [JObj [(''db'', JObj [(''host'', JNull), (''port'', JNum 5432)]), (''tags'', JArr [Some JNull])],
      JObj [(''debug'', JNull)]]"

definition c7_first :: obj where
  "c7_first =
     [(''a'', JNum 1), (''b'', JObj [(''x'', JNum 1)]), (''l'', JArr [Some (JNum 1), Some (JNum 2)])]"

definition c7_second :: obj where
  "c7_second = [(''b'', JObj [(''x'', JNum 2), (''y'', JNum 3)]), (''l'', JArr [Some (JNum 3)])]"


section \<open>Example inputs\<close>

text \<open>
  A world given by tables: the environment variables, the working directory, the files
  with their text, and what the parsers return for a text (a text not listed does not
  parse). No code module can be imported.
\<close>

definition test_world ::
  "(string \<times> string) list \<Rightarrow> string \<Rightarrow> (string \<times> string) list \<Rightarrow> (string \<times> (error + json)) list \<Rightarrow> world" where
  "test_world vars dir files parses =
     \<lparr>env = vars, cwd = dir,
      existsSync = (\<lambda>p. map_of files p \<noteq> None),
      readFileSync = (\<lambda>p. case map_of files p of Some text \<Rightarrow> Inr text | None \<Rightarrow> Inl (IOError ''ENOENT'')),
      JSON_parse = (\<lambda>s. case map_of parses s of Some r \<Rightarrow> r | None \<Rightarrow> Inl (ParseError ''unexpected token'')),
      yaml_safeLoad = (\<lambda>s. case map_of parses s of Some r \<Rightarrow> r | None \<Rightarrow> Inl (ParseError ''unexpected token'')),
      import_default = (\<lambda>p. Inl (ImportError ''cannot find module''))\<rparr>"




definition c2_world :: world where
  \<open>c2_world = test_world
     [(''MY_APP_2_ENV'', ''staging''), (''DEPLOY'', ''qa''), (''NODE_ENV'', ''production'')]
     ''/srv/my-app/bin''
     [(''/srv/my-app/package.json'', ''{"name": "my.App-2"}'')]
     [(''{"name": "my.App-2"}'', Inr (JObj [(''name'', JStr ''my.App-2'')]))]\<close>

definition c2_quiet_world :: world where
  \<open>c2_quiet_world = test_world [(''MY_APP_2_ENV'', '''')] ''/srv/my-app/bin''
     [(''/srv/my-app/package.json'', ''{"name": "my.App-2"}'')]
     [(''{"name": "my.App-2"}'', Inr (JObj [(''name'', JStr ''my.App-2'')]))]\<close>

definition c2_override :: obj where
  "c2_override = [(''environmentOverride'', JStr ''test''),
                  (''argv'', JObj [(''config-env'', JStr ''dev'')])]"

definition c2_cli :: obj where
  "c2_cli = [(''argv'', JObj [(''stage'', JStr ''beta''), (''config-env'', JStr ''dev'')])]"

definition c2_cli_named :: obj where
  "c2_cli_named = [(''cliArgumentEnvironment'', JStr ''stage''),
                   (''argv'', JObj [(''stage'', JStr ''beta''), (''config-env'', JStr ''dev'')])]"

definition c2_named :: obj where
  "c2_named = [(''envVariableEnvironment'', JStr ''DEPLOY'')]"

definition c2_named_unset :: obj where
  "c2_named_unset = [(''envVariableEnvironment'', JStr ''STAGE'')]"


definition c6_options :: obj where
  "c6_options =
     [(''projectName'', JStr ''app''), (''rootDir'', JStr ''/proj''),
      (''environmentOverride'', JStr ''prod''),
      (''argv'', JObj [(''config-setting-environments.prod.d'', JNum 4)])]"

definition c6_world :: world where
  "c6_world = test_world [(''APP_CONFIG_environments.prod.c'', ''3'')] ''/proj''
     [(''/proj/app-defaults.conf'', ''{x: 1, environments: {prod: {a: 1}}}''),
      (''/proj/app.conf'', ''{environments: {prod: {b: 2}}, y: {environments: 2}}'')]
     [(''{x: 1, environments: {prod: {a: 1}}}'',
        Inr (JObj [(''x'', JNum 1), (''environments'', JObj [(''prod'', JObj [(''a'', JNum 1)])])])),
      (''{environments: {prod: {b: 2}}, y: {environments: 2}}'',
        Inr (JObj [(''environments'', JObj [(''prod'', JObj [(''b'', JNum 2)])]),
                   (''y'', JObj [(''environments'', JNum 2)])]))]"

definition c8_options :: obj where
  "c8_options = [(''projectName'', JStr ''app''), (''rootDir'', JStr ''/proj'')]"

definition c8_world :: world where
  "c8_world = test_world [] ''/proj''
     [(''/proj/app-defaults.conf'', ''42''), (''/proj/app.conf'', ''{a: [''),
      (''/proj/empty.conf'', ''''), (''/proj/broken.conf.js'', ''module.exports = ('')]
     [(''42'', Inr (JNum 42)), ('''', Inr JUndef)]"

definition c4_options :: obj where
  "c4_options = [(''projectName'', JStr ''myapp''), (''rootDir'', JStr ''/proj'')]"

definition c4_files :: "(string \<times> string) list" where
  "c4_files = [(''/proj/myapp.conf'', ''{db: {host: filehost, port: 5432}}'')]"

definition c4_parses :: "(string \<times> (error + json)) list" where
  "c4_parses = [(''{db: {host: filehost, port: 5432}}'',
                 Inr (JObj [(''db'', JObj [(''host'', JStr ''filehost''), (''port'', JNum 5432)])]))]"

definition c4_world :: world where
  "c4_world = test_world [(''PATH'', ''/usr/bin''), (''MYAPP_CONFIG_DB_HOST'', ''foo'')] ''/proj''
     c4_files c4_parses"

definition c4_dotted_world :: world where
  "c4_dotted_world = test_world
     [(''MYAPP_CONFIG_db.host'', ''foo''), (''PATH'', ''/usr/bin''), (''MYAPP_CONFIG_db.user'', ''u'')]
     ''/proj'' c4_files c4_parses"

definition c9_options :: obj where
  "c9_options = [(''projectName'', JStr ''app''), (''rootDir'', JStr ''/proj'')]"

definition c9_reordered :: obj where
  "c9_reordered = [(''rootDir'', JStr ''/proj''), (''projectName'', JStr ''app'')]"

definition c9_same_content :: obj where
  "c9_same_content = [(''filename'', JUndef), (''projectName'', JStr ''app''), (''rootDir'', JStr ''/proj'')]"

definition c9_same_content_reordered :: obj where
  "c9_same_content_reordered =
     [(''projectName'', JStr ''app''), (''rootDir'', JStr ''/proj''), (''filename'', JUndef)]"

definition c9_world :: world where
  "c9_world = test_world [] ''/proj'' [(''/proj/app.conf'', ''{a: 1}'')]
     [(''{a: 1}'', Inr (JObj [(''a'', JNum 1)])), (''{a: 2}'', Inr (JObj [(''a'', JNum 2)]))]"

definition c9_later_world :: world where
  "c9_later_world = test_world [] ''/proj'' [(''/proj/app.conf'', ''{a: 2}'')]
     [(''{a: 1}'', Inr (JObj [(''a'', JNum 1)])), (''{a: 2}'', Inr (JObj [(''a'', JNum 2)]))]"

section \<open>Properties\<close>

subsection \<open>Paths and the directory walk\<close>

lemma split_on_not_Nil [simp]: "split_on c s \<noteq> []"
  by (induction s) (auto split: list.splits)

lemma split_on_append_sep: "split_on c (s @ c # t) = split_on c s @ split_on c t"
  by (induction s) (auto split: list.splits)

lemma split_on_no_sep: "c \<notin> set s \<Longrightarrow> split_on c s = [s]"
  by (induction s) auto

lemma split_on_join:
  "list_all (\<lambda>s. CHR ''/'' \<notin> set s) segs \<Longrightarrow> segs \<noteq> [] \<Longrightarrow>
   split_on CHR ''/'' (join ''/'' segs) = segs"
proof (induction segs)
  case Nil then show ?case by simp
next
  case (Cons x xs)
  show ?case
  proof (cases xs)
    case Nil
    with Cons.prems show ?thesis by (simp add: split_on_no_sep)
  next
    case (Cons y ys)
    have "split_on CHR ''/'' (x @ CHR ''/'' # join ''/'' (y # ys)) =
          split_on CHR ''/'' x @ split_on CHR ''/'' (join ''/'' (y # ys))"
      by (rule split_on_append_sep)
    then show ?thesis using Cons.IH Cons.prems Cons by (simp add: split_on_no_sep)
  qed
qed

lemma foldl_norm_step_clean:
  "list_all clean_segment segs \<Longrightarrow> foldl (norm_step up) acc segs = acc @ segs"
  by (induction segs arbitrary: acc) (auto simp: norm_step_def clean_segment_def)

lemma norm_step_clean:
  "list_all clean_segment acc \<Longrightarrow> CHR ''/'' \<notin> set seg \<Longrightarrow>
   list_all clean_segment (norm_step False acc seg)"
  by (auto simp: norm_step_def clean_segment_def list_all_iff dest: in_set_butlastD)

lemma split_on_elems_no_sep: "s \<in> set (split_on c p) \<Longrightarrow> c \<notin> set s"
  by (induction p arbitrary: s) (auto split: list.splits if_splits)

lemma foldl_norm_step_result_clean:
  "list_all clean_segment acc \<Longrightarrow> list_all (\<lambda>s. CHR ''/'' \<notin> set s) segs \<Longrightarrow>
   list_all clean_segment (foldl (norm_step False) acc segs)"
  by (induction segs arbitrary: acc) (auto simp: norm_step_clean)

lemma normalize_segments_clean: "list_all clean_segment (normalize_segments False p)"
  unfolding normalize_segments_def
  by (rule foldl_norm_step_result_clean) (auto simp: list_all_iff dest: split_on_elems_no_sep)

lemma normalize_abs_path:
  assumes "list_all clean_segment segs"
  shows "normalize_segments False (abs_path segs @ ''/'' @ rest) =
         foldl (norm_step False) segs (split_on CHR ''/'' rest)"
proof (cases "segs = []")
  case True
  then show ?thesis
    by (simp add: normalize_segments_def abs_path_def norm_step_def)
next
  case False
  have nosep: "list_all (\<lambda>s. CHR ''/'' \<notin> set s) segs"
    using assms by (auto simp: list_all_iff clean_segment_def)
  have "abs_path segs @ ''/'' @ rest = [] @ CHR ''/'' # (join ''/'' segs @ CHR ''/'' # rest)"
    by (simp add: abs_path_def)
  then have "split_on CHR ''/'' (abs_path segs @ ''/'' @ rest) =
      [[]] @ split_on CHR ''/'' (join ''/'' segs) @ split_on CHR ''/'' rest"
    by (simp only: split_on_append_sep) simp
  then have "split_on CHR ''/'' (abs_path segs @ ''/'' @ rest) = [[]] @ segs @ split_on CHR ''/'' rest"
    using split_on_join[OF nosep False] by simp
  then show ?thesis using assms
    by (simp add: normalize_segments_def norm_step_def foldl_norm_step_clean)
qed

lemma isAbsolute_abs_path [simp]: "isAbsolute (abs_path segs)"
  unfolding isAbsolute_def abs_path_def by simp

lemma abs_path_not_Nil [simp]: "abs_path segs \<noteq> []"
  by (simp add: abs_path_def)

lemma parent_directory:
  assumes "list_all clean_segment segs"
  shows "path_resolve c [abs_path segs, ''..''] = abs_path (butlast segs)"
proof -
  have "\<not> isAbsolute ''..''" by (simp add: isAbsolute_def)
  then have g: "gather (rev [abs_path segs, ''..''] @ [c]) = (abs_path segs @ ''/'' @ ''../'', True)"
    by simp
  have "normalize_segments False (abs_path segs @ ''/'' @ ''../'') = butlast segs"
    using assms unfolding normalize_abs_path[OF assms]
    by (cases segs rule: rev_cases) (auto simp: norm_step_def clean_segment_def)
  then show ?thesis unfolding path_resolve_def g
    by (simp add: normalizeString_def abs_path_def)
qed

lemma resolve_cwd:
  assumes "isAbsolute c"
  shows "path_resolve c [c] = abs_path (normalize_segments False c)"
proof -
  have c: "c \<noteq> []" using assms by (auto simp: isAbsolute_def)
  then have g: "gather (rev [c] @ [c]) = (c @ ''/'', True)" using assms by simp
  have "split_on CHR ''/'' (c @ ''/'') = split_on CHR ''/'' c @ [[]]"
    using split_on_append_sep[of "CHR ''/''" c "[]"] by simp
  then have "normalize_segments False (c @ ''/'') = normalize_segments False c"
    by (simp add: normalize_segments_def norm_step_def)
  then show ?thesis unfolding path_resolve_def g
    by (simp add: normalizeString_def abs_path_def)
qed

lemma length_join:
  "length (join sep segs) = sum_list (map length segs) + length sep * (length segs - 1)"
  by (induction sep segs rule: join.induct) auto

lemma root_is_own_parent:
  assumes "list_all clean_segment segs"
  shows "abs_path (butlast segs) = abs_path segs \<longleftrightarrow> segs = []"
proof (cases segs rule: rev_cases)
  case Nil then show ?thesis by simp
next
  case (snoc xs x)
  then have "x \<noteq> []" using assms by (simp add: clean_segment_def)
  then have "length (abs_path (butlast segs)) < length (abs_path segs)"
    using snoc by (cases x) (simp_all add: abs_path_def length_join)
  then show ?thesis using snoc by auto
qed

text \<open>
  The directory walk of \<^verbatim>\<open>_findProjectRootDir\<close>, kept on segments, is the source's loop:
  for the path \<open>dir\<close> of clean segments, \<^verbatim>\<open>path.resolve(dir, '..')\<close> is the path of all
  segments but the last, it equals \<open>dir\<close> exactly at the root, and the start
  \<^verbatim>\<open>path.resolve(process.cwd())\<close> is the path of the normalized segments of the working
  directory.
\<close>

lemma walkUp_as_in_source:
  assumes "list_all clean_segment segs"
  shows "walkUp w segs =
           (if existsSync w (path_join [abs_path segs, ''package.json'']) then Some (abs_path segs)
            else if path_resolve c [abs_path segs, ''..''] = abs_path segs then None
            else walkUp w (butlast segs))"
    and "path_resolve c [abs_path segs, ''..''] = abs_path (butlast segs)"
    and "list_all clean_segment (butlast segs)"
proof -
  show p: "path_resolve c [abs_path segs, ''..''] = abs_path (butlast segs)"
    using assms by (rule parent_directory)
  show "list_all clean_segment (butlast segs)"
    using assms by (auto simp: list_all_iff dest: in_set_butlastD)
  show "walkUp w segs =
           (if existsSync w (path_join [abs_path segs, ''package.json'']) then Some (abs_path segs)
            else if path_resolve c [abs_path segs, ''..''] = abs_path segs then None
            else walkUp w (butlast segs))"
    unfolding p root_is_own_parent[OF assms] by (subst walkUp.simps) simp
qed

subsection \<open>Well-formed values\<close>

lemma wf_props_map_of: "wf_props kvs \<Longrightarrow> map_of kvs k = Some v \<Longrightarrow> wf_json v"
  by (induction kvs) (auto split: if_splits)

lemma wf_props_update: "wf_props t \<Longrightarrow> wf_json v \<Longrightarrow> wf_props (AList.update k v t)"
  by (induction t) auto

lemma wf_items_nth: "wf_items xs \<Longrightarrow> i < length xs \<Longrightarrow> xs ! i = Some v \<Longrightarrow> wf_json v"
proof (induction xs arbitrary: i)
  case Nil then show ?case by simp
next
  case (Cons x xs)
  then show ?case by (cases x; cases i) auto
qed

lemma wf_merge2:
  "distinct (map fst t) \<Longrightarrow> wf_props t \<Longrightarrow> distinct (map fst s) \<Longrightarrow> wf_props s \<Longrightarrow>
   distinct (map fst (merge2 t s)) \<and> wf_props (merge2 t s)"
proof (induction t s rule: merge2.induct)
  case (1 t) then show ?case by simp
next
  case (2 t k v s)
  let ?t' = "(case (map_of t k, v) of
               (Some (JObj tv), JObj sv) \<Rightarrow> AList.update k (JObj (merge2 tv sv)) t
             | _ \<Rightarrow> AList.update k v t)"
  have s: "distinct (map fst s)" "wf_props s" "wf_json v" using "2.prems" by auto
  have "distinct (map fst ?t') \<and> wf_props ?t'"
  proof (cases "\<exists>tv sv. map_of t k = Some (JObj tv) \<and> v = JObj sv")
    case True
    then obtain tv sv where tv: "map_of t k = Some (JObj tv)" "v = JObj sv" by blast
    have "wf_json (JObj tv)" using "2.prems"(2) tv(1) by (rule wf_props_map_of)
    then have "distinct (map fst (merge2 tv sv)) \<and> wf_props (merge2 tv sv)"
      using "2.IH"(1)[OF refl tv(1) refl tv(2)] s(3) tv(2) by simp
    then show ?thesis using tv "2.prems"(1,2) by (simp add: distinct_update wf_props_update)
  next
    case False
    then have "?t' = AList.update k v t"
      by (auto split: option.splits json.splits)
    then show ?thesis using "2.prems"(1,2) s(3) by (simp add: distinct_update wf_props_update)
  qed
  then show ?case using "2.IH"(2) s by simp
qed

lemma wf_objtools_merge:
  "wf_json (JObj t) \<Longrightarrow> list_all wf_json configs \<Longrightarrow> wf_json (JObj (objtools_merge t configs))"
proof (induction configs arbitrary: t)
  case Nil then show ?case by (simp add: objtools_merge_def)
next
  case (Cons c cs)
  have "wf_json (JObj (merge_source t c))"
    using Cons.prems wf_merge2[of t] by (cases c) auto
  then show ?case using Cons.IH[of "merge_source t c"] Cons.prems(2) by (simp add: objtools_merge_def)
qed

subsection \<open>Null pruning\<close>

lemma removeNulls_eq_JNull [simp]: "removeNulls v = JNull \<longleftrightarrow> v = JNull"
  by (cases v) auto

lemma removeNulls_no_null:
  "\<not> has_null (removeNulls v)"
  "\<not> has_null_props (removeNulls_props kvs)"
  "\<not> has_null_items (removeNulls_items xs)"
  by (induction v and kvs and xs rule: removeNulls_removeNulls_props_removeNulls_items.induct) auto

lemma map_of_removeNulls_props:
  "distinct (map fst kvs) \<Longrightarrow>
   map_of (removeNulls_props kvs) k =
     (case map_of kvs k of None \<Rightarrow> None
      | Some v \<Rightarrow> if v = JNull then None else Some (removeNulls v))"
proof (induction kvs)
  case Nil then show ?case by simp
next
  case (Cons a kvs)
  obtain k' v' where a: "a = (k', v')" by (cases a)
  have notin: "k' \<notin> fst ` set kvs" using Cons.prems a by auto
  have "map_of kvs k' = None" using notin by (simp add: map_of_eq_None_iff)
  with Cons a show ?case by (auto split: option.splits)
qed

lemma length_removeNulls_items: "length (removeNulls_items xs) = length xs"
proof (induction xs)
  case Nil then show ?case by simp
next
  case (Cons x xs)
  then show ?case by (cases x) auto
qed

lemma nth_removeNulls_items:
  "i < length xs \<Longrightarrow>
   removeNulls_items xs ! i =
     (case xs ! i of None \<Rightarrow> None | Some v \<Rightarrow> if v = JNull then None else Some (removeNulls v))"
proof (induction xs arbitrary: i)
  case Nil then show ?case by simp
next
  case (Cons x xs)
  then show ?case by (cases x; cases i) auto
qed

lemma lookup_null_removed:
  "wf_json v \<Longrightarrow> lookup_path v (p @ [k]) = Some JNull \<Longrightarrow>
   lookup_path (removeNulls v) (p @ [k]) = None"
proof (induction p arbitrary: v)
  case Nil
  show ?case
  proof (cases v)
    case (JObj kvs)
    show ?thesis
    proof (cases k)
      case (Key s)
      with Nil JObj have "map_of kvs s = Some JNull" by (simp split: option.splits)
      moreover have "distinct (map fst kvs)" using Nil JObj by simp
      ultimately show ?thesis using JObj Key by (simp add: map_of_removeNulls_props)
    next
      case (Index i)
      with Nil JObj show ?thesis by simp
    qed
  next
    case (JArr xs)
    with Nil show ?thesis
      by (cases k)
        (auto simp: nth_removeNulls_items length_removeNulls_items split: option.splits if_splits)
  qed (use Nil in auto)
next
  case (Cons q p)
  show ?case
  proof (cases v)
    case (JObj kvs)
    show ?thesis
    proof (cases q)
      case (Key s)
      with Cons.prems JObj obtain c
        where c: "map_of kvs s = Some c" "lookup_path c (p @ [k]) = Some JNull"
        by (auto split: option.splits)
      have "c \<noteq> JNull" using c(2) by (cases p) auto
      moreover have "wf_json c" using Cons.prems(1) JObj c(1) by (auto intro: wf_props_map_of)
      ultimately show ?thesis using Cons.IH[of c] c JObj Key Cons.prems(1)
        by (simp add: map_of_removeNulls_props)
    next
      case (Index i)
      with Cons.prems JObj show ?thesis by simp
    qed
  next
    case (JArr xs)
    show ?thesis
    proof (cases q)
      case (Index i)
      with Cons.prems JArr obtain c
        where c: "i < length xs" "xs ! i = Some c" "lookup_path c (p @ [k]) = Some JNull"
        by (auto split: option.splits if_splits)
      have "c \<noteq> JNull" using c(3) by (cases p) auto
      moreover have "wf_json c" using Cons.prems(1) JArr c by (auto intro: wf_items_nth)
      ultimately show ?thesis using Cons.IH[of c] c JArr Index
        by (simp add: nth_removeNulls_items length_removeNulls_items)
    next
      case (Key s)
      with Cons.prems JArr show ?thesis by simp
    qed
  qed (use Cons.prems in auto)
qed

text \<open>
  Claim C3. Whatever the list of merge inputs, no key of the result of \<^verbatim>\<open>_mergeConfig\<close>,
  at any depth, has the value \<^verbatim>\<open>null\<close>. The pruning is one pass over the merged object:
  for well-formed inputs, a key that has the value \<^verbatim>\<open>null\<close> in the merged object, at any
  depth and from whichever source, is absent from the result.
\<close>

theorem C3_null_pruning:
  "\<not> has_null (JObj (mergeConfig configs)) \<and>
   (list_all wf_json configs \<longrightarrow>
    lookup_path (JObj (objtools_merge [] configs)) (p @ [k]) = Some JNull \<longrightarrow>
    lookup_path (JObj (mergeConfig configs)) (p @ [k]) = None)"
proof -
  have a: "\<not> has_null (JObj (mergeConfig configs))"
    by (simp add: mergeConfig_def removeNulls_no_null)
  have b: "lookup_path (JObj (mergeConfig configs)) (p @ [k]) = None"
    if "list_all wf_json configs"
      and "lookup_path (JObj (objtools_merge [] configs)) (p @ [k]) = Some JNull"
  proof -
    have "wf_json (JObj (objtools_merge [] configs))"
      using that(1) by (intro wf_objtools_merge) auto
    from lookup_null_removed[OF this that(2)] show ?thesis by (simp add: mergeConfig_def)
  qed
  from a b show ?thesis by blast
qed

theorem C3_null_pruning_witness:
  "list_all wf_json c3_configs \<and>
   lookup_path (JObj (objtools_merge [] c3_configs)) ([Key ''db''] @ [Key ''host'']) = Some JNull \<and>
   lookup_path (JObj (mergeConfig c3_configs)) ([Key ''db''] @ [Key ''host'']) = None \<and>
   \<not> has_null (JObj (mergeConfig c3_configs)) \<and>
   mergeConfig c3_configs = [(''db'', JObj [(''port'', JNum 5432)]), (''tags'', JArr [None])]"
proof -
  have h1: "list_all wf_json c3_configs" by code_simp
  have h2: "lookup_path (JObj (objtools_merge [] c3_configs)) ([Key ''db''] @ [Key ''host'']) = Some JNull"
    by code_simp
  have h3: "mergeConfig c3_configs = [(''db'', JObj [(''port'', JNum 5432)]), (''tags'', JArr [None])]"
    by code_simp
  from C3_null_pruning[of c3_configs "[Key ''db'']" "Key ''host''"] h1 h2 h3 show ?thesis by blast
qed

subsection \<open>The merge\<close>

lemma map_of_merge2:
  "distinct (map fst s) \<Longrightarrow>
   map_of (merge2 t s) k =
     (case map_of s k of
        None \<Rightarrow> map_of t k
      | Some v \<Rightarrow>
          (case (map_of t k, v) of
             (Some (JObj tv), JObj sv) \<Rightarrow> Some (JObj (merge2 tv sv))
           | _ \<Rightarrow> Some v))"
proof (induction t s rule: merge2.induct)
  case (1 t) then show ?case by simp
next
  case (2 t k' v' s)
  define T where "T = (case map_of t k' of
              None \<Rightarrow> AList.update k' v' t
            | Some (JObj tv) \<Rightarrow>
                (case v' of JObj sv \<Rightarrow> AList.update k' (JObj (merge2 tv sv)) t
                 | _ \<Rightarrow> AList.update k' v' t)
            | Some _ \<Rightarrow> AList.update k' v' t)"
  have d: "distinct (map fst s)" and notin: "map_of s k' = None"
    using "2.prems" by (auto simp: map_of_eq_None_iff)
  have unfold: "merge2 t ((k', v') # s) = merge2 T s" unfolding T_def by simp
  have ih: "map_of (merge2 T s) k =
     (case map_of s k of
        None \<Rightarrow> map_of T k
      | Some v \<Rightarrow>
          (case (map_of T k, v) of
             (Some (JObj tv), JObj sv) \<Rightarrow> Some (JObj (merge2 tv sv))
           | _ \<Rightarrow> Some v))"
    unfolding T_def by (rule "2.IH"(2)[OF d])
  have other: "k \<noteq> k' \<Longrightarrow> map_of T k = map_of t k"
    unfolding T_def by (auto simp: update_conv' split: option.splits json.splits)
  have same: "map_of T k' =
      (case (map_of t k', v') of
         (Some (JObj tv), JObj sv) \<Rightarrow> Some (JObj (merge2 tv sv))
       | _ \<Rightarrow> Some v')"
    unfolding T_def by (auto simp: update_conv' split: option.splits json.splits)
  show ?case
  proof (cases "k = k'")
    case True
    then show ?thesis unfolding unfold ih using notin same by simp
  next
    case False
    then have eq: "map_of T k = map_of t k" by (rule other)
    show ?thesis unfolding unfold ih eq using False by simp
  qed
qed

lemma merge2_distinct_append: "distinct (map fst (t @ s)) \<Longrightarrow> merge2 t s = t @ s"
proof (induction t s rule: merge2.induct)
  case (1 t) then show ?case by simp
next
  case (2 t k v s)
  have "map_of t k = None" using "2.prems" by (auto simp: map_of_eq_None_iff)
  moreover have "AList.update k v t = t @ [(k, v)]" using \<open>map_of t k = None\<close>
    by (induction t) (auto split: if_splits)
  ultimately show ?case using "2.IH"(2) "2.prems" by simp
qed

lemma merge2_Nil: "distinct (map fst s) \<Longrightarrow> merge2 [] s = s"
  using merge2_distinct_append[of "[]" s] by simp

lemma objtools_merge_snoc:
  "objtools_merge t (sources @ [JObj s]) = merge2 (objtools_merge t sources) s"
  by (simp add: objtools_merge_def)

lemma removeNulls_id:
  "\<not> has_null v \<Longrightarrow> removeNulls v = v"
  "\<not> has_null_props kvs \<Longrightarrow> removeNulls_props kvs = kvs"
  "\<not> has_null_items xs \<Longrightarrow> removeNulls_items xs = xs"
  by (induction v and kvs and xs rule: removeNulls_removeNulls_props_removeNulls_items.induct) auto

lemma has_null_props_update:
  "\<not> has_null_props t \<Longrightarrow> v \<noteq> JNull \<Longrightarrow> \<not> has_null v \<Longrightarrow>
   \<not> has_null_props (AList.update k v t)"
  by (induction t) auto

lemma has_null_props_map_of:
  "\<not> has_null_props t \<Longrightarrow> map_of t k = Some v \<Longrightarrow> v \<noteq> JNull \<and> \<not> has_null v"
  by (induction t) (auto split: if_splits)

lemma no_null_merge2:
  "\<not> has_null_props t \<Longrightarrow> \<not> has_null_props s \<Longrightarrow> \<not> has_null_props (merge2 t s)"
proof (induction t s rule: merge2.induct)
  case (1 t) then show ?case by simp
next
  case (2 t k v s)
  define T where "T = (case map_of t k of
              None \<Rightarrow> AList.update k v t
            | Some (JObj tv) \<Rightarrow>
                (case v of JObj sv \<Rightarrow> AList.update k (JObj (merge2 tv sv)) t
                 | _ \<Rightarrow> AList.update k v t)
            | Some _ \<Rightarrow> AList.update k v t)"
  have unfold: "merge2 t ((k, v) # s) = merge2 T s" unfolding T_def by simp
  have v: "v \<noteq> JNull" "\<not> has_null v" "\<not> has_null_props s" using "2.prems"(2) by auto
  have "\<not> has_null_props T"
  proof (cases "\<exists>tv sv. map_of t k = Some (JObj tv) \<and> v = JObj sv")
    case True
    then obtain tv sv where tv: "map_of t k = Some (JObj tv)" "v = JObj sv" by blast
    have "\<not> has_null_props tv" using has_null_props_map_of[OF "2.prems"(1) tv(1)] by simp
    then have "\<not> has_null_props (merge2 tv sv)"
      using "2.IH"(1)[OF refl tv(1) refl tv(2)] v(2) tv(2) by simp
    then show ?thesis using tv "2.prems"(1) by (simp add: T_def has_null_props_update)
  next
    case False
    then have "T = AList.update k v t"
      unfolding T_def by (auto split: option.splits json.splits)
    then show ?thesis using "2.prems"(1) v by (simp add: has_null_props_update)
  qed
  then show ?case unfolding unfold using "2.IH"(2)[folded T_def] v(3) by simp
qed

lemma mergeConfig_two:
  assumes "wf_json (JObj a)" "wf_json (JObj b)" "\<not> has_null (JObj a)" "\<not> has_null (JObj b)"
  shows "mergeConfig [JObj a, JObj b] = merge2 a b"
proof -
  have "merge2 [] a = a" using assms(1) by (simp add: merge2_Nil)
  moreover have "\<not> has_null_props (merge2 a b)" using assms(3,4) by (simp add: no_null_merge2)
  ultimately show ?thesis by (simp add: mergeConfig_def objtools_merge_def removeNulls_id)
qed

text \<open>
  Claim C7. The merge is right-biased and recursive on mappings. Merging one more source
  \<open>s\<close> after the earlier ones gives, for each key of \<open>s\<close>: the recursive merge of the two
  values when both the value so far and the value of \<open>s\<close> are mappings, and the value of
  \<open>s\<close> otherwise (so a sequence is replaced as a whole); a key that \<open>s\<close> lacks keeps its
  value. For two well-formed sources without \<^verbatim>\<open>null\<close> the same holds of
  \<^verbatim>\<open>_mergeConfig\<close> itself, whose pruning then changes nothing. Merging
  \<^verbatim>\<open>{a:1, b:{x:1}, l:[1,2]}\<close> then \<^verbatim>\<open>{b:{x:2, y:3}, l:[3]}\<close> yields
  \<^verbatim>\<open>{a:1, b:{x:2, y:3}, l:[3]}\<close>.
\<close>

theorem C7_merge_right_biased:
  "(distinct (map fst s) \<longrightarrow>
      map_of (objtools_merge [] (earlier @ [JObj s])) k =
        (case map_of s k of
           None \<Rightarrow> map_of (objtools_merge [] earlier) k
         | Some v \<Rightarrow>
             (case (map_of (objtools_merge [] earlier) k, v) of
                (Some (JObj tv), JObj sv) \<Rightarrow> Some (JObj (merge2 tv sv))
              | _ \<Rightarrow> Some v))) \<and>
   (wf_json (JObj a) \<and> wf_json (JObj b) \<and> \<not> has_null (JObj a) \<and> \<not> has_null (JObj b) \<longrightarrow>
      map_of (mergeConfig [JObj a, JObj b]) k =
        (case map_of b k of
           None \<Rightarrow> map_of a k
         | Some v \<Rightarrow>
             (case (map_of a k, v) of
                (Some (JObj x), JObj y) \<Rightarrow> Some (JObj (mergeConfig [JObj x, JObj y]))
              | _ \<Rightarrow> Some v))) \<and>
   mergeConfig [JObj c7_first, JObj c7_second] =
     [(''a'', JNum 1), (''b'', JObj [(''x'', JNum 2), (''y'', JNum 3)]), (''l'', JArr [Some (JNum 3)])]"
proof (intro conjI impI)
  assume "distinct (map fst s)"
  then show "map_of (objtools_merge [] (earlier @ [JObj s])) k =
        (case map_of s k of
           None \<Rightarrow> map_of (objtools_merge [] earlier) k
         | Some v \<Rightarrow>
             (case (map_of (objtools_merge [] earlier) k, v) of
                (Some (JObj tv), JObj sv) \<Rightarrow> Some (JObj (merge2 tv sv))
              | _ \<Rightarrow> Some v))"
    unfolding objtools_merge_snoc by (rule map_of_merge2)
next
  assume h: "wf_json (JObj a) \<and> wf_json (JObj b) \<and> \<not> has_null (JObj a) \<and> \<not> has_null (JObj b)"
  have top: "mergeConfig [JObj a, JObj b] = merge2 a b" using h by (intro mergeConfig_two) auto
  have sub: "mergeConfig [JObj x, JObj y] = merge2 x y"
    if "map_of a k = Some (JObj x)" "map_of b k = Some (JObj y)" for x y
  proof -
    have "wf_json (JObj x)" "wf_json (JObj y)"
      using h that by (auto dest: wf_props_map_of)
    moreover have "\<not> has_null (JObj x)" "\<not> has_null (JObj y)"
      using h that has_null_props_map_of[of a k "JObj x"] has_null_props_map_of[of b k "JObj y"]
      by auto
    ultimately show ?thesis by (rule mergeConfig_two)
  qed
  have "distinct (map fst b)" using h by simp
  from map_of_merge2[OF this, of a k] sub
  show "map_of (mergeConfig [JObj a, JObj b]) k =
        (case map_of b k of
           None \<Rightarrow> map_of a k
         | Some v \<Rightarrow>
             (case (map_of a k, v) of
                (Some (JObj x), JObj y) \<Rightarrow> Some (JObj (mergeConfig [JObj x, JObj y]))
              | _ \<Rightarrow> Some v))"
    unfolding top by (auto split: option.splits json.splits)
next
  show "mergeConfig [JObj c7_first, JObj c7_second] =
     [(''a'', JNum 1), (''b'', JObj [(''x'', JNum 2), (''y'', JNum 3)]), (''l'', JArr [Some (JNum 3)])]"
    by code_simp
qed

theorem C7_merge_right_biased_witness:
  "distinct (map fst c7_second) \<and>
   map_of (objtools_merge [] ([JObj c7_first] @ [JObj c7_second])) ''b'' =
     Some (JObj [(''x'', JNum 2), (''y'', JNum 3)]) \<and>
   wf_json (JObj c7_first) \<and> wf_json (JObj c7_second) \<and>
   \<not> has_null (JObj c7_first) \<and> \<not> has_null (JObj c7_second) \<and>
   map_of (mergeConfig [JObj c7_first, JObj c7_second]) ''l'' = Some (JArr [Some (JNum 3)]) \<and>
   map_of (mergeConfig [JObj c7_first, JObj c7_second]) ''a'' = Some (JNum 1)"
proof -
  have d: "distinct (map fst c7_second)" by code_simp
  have h: "wf_json (JObj c7_first) \<and> wf_json (JObj c7_second) \<and>
           \<not> has_null (JObj c7_first) \<and> \<not> has_null (JObj c7_second)" by code_simp
  have m: "map_of c7_second ''l'' = Some (JArr [Some (JNum 3)])"
    "map_of c7_first ''l'' = Some (JArr [Some (JNum 1), Some (JNum 2)])"
    "map_of c7_second ''a'' = None" "map_of c7_first ''a'' = Some (JNum 1)"
    "map_of c7_second ''b'' = Some (JObj [(''x'', JNum 2), (''y'', JNum 3)])"
    "map_of (objtools_merge [] [JObj c7_first]) ''b'' = Some (JObj [(''x'', JNum 1)])"
    "merge2 [(''x'', JNum 1)] [(''x'', JNum 2), (''y'', JNum 3)] = [(''x'', JNum 2), (''y'', JNum 3)]"
    by code_simp+
  from C7_merge_right_biased[of c7_second "[JObj c7_first]" "''b''" c7_first c7_second]
       C7_merge_right_biased[of c7_second "[JObj c7_first]" "''l''" c7_first c7_second]
       C7_merge_right_biased[of c7_second "[JObj c7_first]" "''a''" c7_first c7_second]
       d h m
  show ?thesis by simp
qed

subsection \<open>\<^verbatim>\<open>loadConfig\<close>\<close>

lemma bindS_Inr:
  "bindS m f = (Inr r, s') \<longleftrightarrow> (\<exists>x s. m = (Inr x, s) \<and> f x s = (Inr r, s'))"
  by (cases m; cases "fst m") (auto simp: bindS_def)

lemma bindS_Inl:
  "bindS m f = (Inl e, s') \<longleftrightarrow> (m = (Inl e, s') \<or> (\<exists>x s. m = (Inr x, s) \<and> f x s = (Inl e, s')))"
  by (cases m; cases "fst m") (auto simp: bindS_def)

lemma bindE_Inl: "r = Inl e \<Longrightarrow> bindE r s f = (Inl e, s)"
  by (simp add: bindE_def)

lemma bindE_Inr: "r = Inr x \<Longrightarrow> bindE r s f = f x"
  by (simp add: bindE_def)

lemma loadConfig_Inr:
  "loadConfig w lc = (Inr r, lc') \<longleftrightarrow>
     (\<exists>d lc1 m lc2 ov lc3 e.
        load_defaults w lc = (Inr d, lc1) \<and> load_main w lc1 = (Inr m, lc2) \<and>
        collect_overrides w lc2 = (Inr ov, lc3) \<and> getConfigEnvironment w lc3 = (Inr e, lc') \<and>
        r = AList.delete ''environments''
              (mergeConfig [d, environment_block d e, m, environment_block m e, JObj ov]))"
  unfolding loadConfig_def bindS_Inr by auto



text \<open>
  Claim C6. Whatever the files and the overrides contain, the mapping that
  \<^verbatim>\<open>loadConfig\<close> returns has no key \<^verbatim>\<open>environments\<close>. (The key of the returned
  mapping is meant: a nested mapping may have a key of that name, as in the example
  that follows.)
\<close>

theorem C6_no_environments_key:
  "loadConfig w lc = (Inr r, lc') \<Longrightarrow> ''environments'' \<notin> fst ` set r \<and> getprop r ''environments'' = JUndef"
proof -
  assume "loadConfig w lc = (Inr r, lc')"
  then obtain al where r: "r = AList.delete ''environments'' al"
    unfolding loadConfig_Inr by blast
  have n: "map_of r ''environments'' = None" unfolding r by (simp add: delete_conv')
  then have "''environments'' \<notin> fst ` set r" by (simp add: map_of_eq_None_iff)
  moreover have "getprop r ''environments'' = JUndef" using n by (simp add: getprop_def)
  ultimately show ?thesis by simp
qed

theorem C6_no_environments_key_witness:
  "loadConfig c6_world (LittleConf c6_options) =
     (Inr [(''x'', JNum 1), (''a'', JNum 1), (''y'', JObj [(''environments'', JNum 2)]), (''b'', JNum 2)],
      snd (loadConfig c6_world (LittleConf c6_options))) \<and>
   fst (collect_overrides c6_world (LittleConf c6_options)) =
     Inr [(''environments'', JObj [(''prod'', JObj [(''c'', JStr ''3''), (''d'', JNum 4)])])] \<and>
   ''environments'' \<notin> fst ` set [(''x'', JNum 1), (''a'', JNum 1), (''y'', JObj [(''environments'', JNum 2)]), (''b'', JNum 2)] \<and>
   getprop [(''x'', JNum 1), (''a'', JNum 1), (''y'', JObj [(''environments'', JNum 2)]), (''b'', JNum 2)] ''environments'' = JUndef"
proof -
  have run: "loadConfig c6_world (LittleConf c6_options) =
     (Inr [(''x'', JNum 1), (''a'', JNum 1), (''y'', JObj [(''environments'', JNum 2)]), (''b'', JNum 2)],
      snd (loadConfig c6_world (LittleConf c6_options)))"
    by code_simp
  have ov: "fst (collect_overrides c6_world (LittleConf c6_options)) =
     Inr [(''environments'', JObj [(''prod'', JObj [(''c'', JStr ''3''), (''d'', JNum 4)])])]"
    by code_simp
  from C6_no_environments_key[OF run] run ov show ?thesis by blast
qed

subsection \<open>Path resolution\<close>






subsection \<open>Loading a file\<close>

lemma load_defaults_fails:
  "defaults_candidates w lc = (Inr names, lc1) \<Longrightarrow>
   resolvePath w names (fst (getProjectRootDir w lc1)) = Inr p \<Longrightarrow>
   loadFile w p = Inl e \<Longrightarrow>
   load_defaults w lc = (Inl e, snd (getProjectRootDir w lc1))"
  by (simp add: load_defaults_def bindS_def bindE_def split_beta)

lemma load_main_fails:
  "main_candidates w lc = (Inr names, lc1) \<Longrightarrow>
   resolvePath w names (JArr [Some (fst (getProjectRootDir w lc1)), Some (JStr ''/etc'')]) = Inr (Some p) \<Longrightarrow>
   loadFile w (Some p) = Inl e \<Longrightarrow>
   load_main w lc = (Inl e, snd (getProjectRootDir w lc1))"
  by (cases "p = []") (auto simp add: load_main_def bindS_def bindE_def split_beta loadFile_def)

text \<open>
  Claim C8. \<^verbatim>\<open>_loadFile\<close> returns the empty mapping for no path, for the empty path,
  for a path that does not exist, and for a text file whose parsed content is not an
  object or is \<^verbatim>\<open>null\<close>. An error of the YAML parser or of the import of a code module
  is the result of \<^verbatim>\<open>_loadFile\<close>, and then of \<^verbatim>\<open>loadConfig\<close>, whether the file is the
  defaults file or the main file: there is no retry and no partial result.
\<close>

theorem C8_loadFile_errors:
  "loadFile w None = Inr (JObj []) \<and>
   loadFile w (Some []) = Inr (JObj []) \<and>
   (\<not> existsSync w f \<longrightarrow> loadFile w (Some f) = Inr (JObj [])) \<and>
   (f \<noteq> [] \<and> existsSync w f \<and> \<not> ends_with_js f \<and> readFileSync w f = Inr data \<and>
    yaml_safeLoad w data = Inr v \<and> (\<not> typeof_object v \<or> v = JNull)
      \<longrightarrow> loadFile w (Some f) = Inr (JObj [])) \<and>
   (f \<noteq> [] \<and> existsSync w f \<and> \<not> ends_with_js f \<and> readFileSync w f = Inr data \<and>
    yaml_safeLoad w data = Inl e
      \<longrightarrow> loadFile w (Some f) = Inl e) \<and>
   (f \<noteq> [] \<and> existsSync w f \<and> ends_with_js f \<and> import_default w f = Inl e
      \<longrightarrow> loadFile w (Some f) = Inl e) \<and>
   (defaults_candidates w lc = (Inr names, lc1) \<and>
    resolvePath w names (fst (getProjectRootDir w lc1)) = Inr p \<and> loadFile w p = Inl e
      \<longrightarrow> fst (loadConfig w lc) = Inl e) \<and>
   (load_defaults w lc = (Inr d, lc2) \<and> main_candidates w lc2 = (Inr names', lc3) \<and>
    resolvePath w names' (JArr [Some (fst (getProjectRootDir w lc3)), Some (JStr ''/etc'')]) = Inr (Some p') \<and>
    loadFile w (Some p') = Inl e
      \<longrightarrow> fst (loadConfig w lc) = Inl e)"
proof (intro conjI impI)
  show "loadFile w None = Inr (JObj [])" by (simp add: loadFile_def)
  show "loadFile w (Some []) = Inr (JObj [])" by (simp add: loadFile_def)
next
  assume "\<not> existsSync w f"
  then show "loadFile w (Some f) = Inr (JObj [])" by (simp add: loadFile_def)
next
  assume "f \<noteq> [] \<and> existsSync w f \<and> \<not> ends_with_js f \<and> readFileSync w f = Inr data \<and>
    yaml_safeLoad w data = Inr v \<and> (\<not> typeof_object v \<or> v = JNull)"
  then show "loadFile w (Some f) = Inr (JObj [])" by (auto simp: loadFile_def)
next
  assume "f \<noteq> [] \<and> existsSync w f \<and> \<not> ends_with_js f \<and> readFileSync w f = Inr data \<and>
    yaml_safeLoad w data = Inl e"
  then show "loadFile w (Some f) = Inl e" by (simp add: loadFile_def)
next
  assume "f \<noteq> [] \<and> existsSync w f \<and> ends_with_js f \<and> import_default w f = Inl e"
  then show "loadFile w (Some f) = Inl e" by (simp add: loadFile_def)
next
  assume "defaults_candidates w lc = (Inr names, lc1) \<and>
    resolvePath w names (fst (getProjectRootDir w lc1)) = Inr p \<and> loadFile w p = Inl e"
  then have "load_defaults w lc = (Inl e, snd (getProjectRootDir w lc1))"
    by (intro load_defaults_fails) auto
  then show "fst (loadConfig w lc) = Inl e" by (simp add: loadConfig_def bindS_def)
next
  assume a: "load_defaults w lc = (Inr d, lc2) \<and> main_candidates w lc2 = (Inr names', lc3) \<and>
    resolvePath w names' (JArr [Some (fst (getProjectRootDir w lc3)), Some (JStr ''/etc'')]) = Inr (Some p') \<and>
    loadFile w (Some p') = Inl e"
  then have "load_main w lc2 = (Inl e, snd (getProjectRootDir w lc3))"
    by (intro load_main_fails) auto
  then show "fst (loadConfig w lc) = Inl e" using a by (simp add: loadConfig_def bindS_def)
qed

theorem C8_loadFile_errors_witness:
  "\<not> existsSync c8_world ''/proj/missing.conf'' \<and>
   loadFile c8_world (Some ''/proj/missing.conf'') = Inr (JObj []) \<and>
   loadFile c8_world (Some ''/proj/app-defaults.conf'') = Inr (JObj []) \<and>
   loadFile c8_world (Some ''/proj/empty.conf'') = Inr (JObj []) \<and>
   loadFile c8_world (Some ''/proj/app.conf'') = Inl (ParseError ''unexpected token'') \<and>
   loadFile c8_world (Some ''/proj/broken.conf.js'') = Inl (ImportError ''cannot find module'') \<and>
   fst (loadConfig c8_world (LittleConf c8_options)) = Inl (ParseError ''unexpected token'') \<and>
   fst (loadConfig c8_world (LittleConf ((''defaultsFilename'', JStr ''broken.conf.js'') # c8_options))) =
     Inl (ImportError ''cannot find module'')"
proof -
  let ?lc = "LittleConf c8_options"
  let ?lc' = "LittleConf ((''defaultsFilename'', JStr ''broken.conf.js'') # c8_options)"
  have a: "\<not> existsSync c8_world ''/proj/missing.conf''" by code_simp
  have b: "''/proj/app-defaults.conf'' \<noteq> [] \<and> existsSync c8_world ''/proj/app-defaults.conf'' \<and>
      \<not> ends_with_js ''/proj/app-defaults.conf'' \<and>
      readFileSync c8_world ''/proj/app-defaults.conf'' = Inr ''42'' \<and>
      yaml_safeLoad c8_world ''42'' = Inr (JNum 42) \<and> (\<not> typeof_object (JNum 42) \<or> JNum 42 = JNull)"
    by code_simp
  have c: "''/proj/empty.conf'' \<noteq> [] \<and> existsSync c8_world ''/proj/empty.conf'' \<and>
      \<not> ends_with_js ''/proj/empty.conf'' \<and>
      readFileSync c8_world ''/proj/empty.conf'' = Inr '''' \<and>
      yaml_safeLoad c8_world '''' = Inr JUndef \<and> (\<not> typeof_object JUndef \<or> JUndef = JNull)"
    by code_simp
  have d: "''/proj/app.conf'' \<noteq> [] \<and> existsSync c8_world ''/proj/app.conf'' \<and>
      \<not> ends_with_js ''/proj/app.conf'' \<and>
      readFileSync c8_world ''/proj/app.conf'' = Inr ''{a: ['' \<and>
      yaml_safeLoad c8_world ''{a: ['' = Inl (ParseError ''unexpected token'')"
    by code_simp
  have e: "''/proj/broken.conf.js'' \<noteq> [] \<and> existsSync c8_world ''/proj/broken.conf.js'' \<and>
      ends_with_js ''/proj/broken.conf.js'' \<and>
      import_default c8_world ''/proj/broken.conf.js'' = Inl (ImportError ''cannot find module'')"
    by code_simp
  have f: "defaults_candidates c8_world ?lc' = (Inr (JStr ''broken.conf.js''), ?lc') \<and>
      resolvePath c8_world (JStr ''broken.conf.js'') (fst (getProjectRootDir c8_world ?lc')) =
        Inr (Some ''/proj/broken.conf.js'') \<and>
      loadFile c8_world (Some ''/proj/broken.conf.js'') = Inl (ImportError ''cannot find module'')"
    by code_simp
  have g: "load_defaults c8_world ?lc = (Inr (JObj []), snd (load_defaults c8_world ?lc)) \<and>
      main_candidates c8_world (snd (load_defaults c8_world ?lc)) =
        (Inr (JArr [Some (JStr ''app.conf''), Some (JStr ''app.conf.js'')]),
         snd (main_candidates c8_world (snd (load_defaults c8_world ?lc)))) \<and>
      resolvePath c8_world (JArr [Some (JStr ''app.conf''), Some (JStr ''app.conf.js'')])
        (JArr [Some (fst (getProjectRootDir c8_world
                 (snd (main_candidates c8_world (snd (load_defaults c8_world ?lc)))))),
               Some (JStr ''/etc'')]) = Inr (Some ''/proj/app.conf'') \<and>
      loadFile c8_world (Some ''/proj/app.conf'') = Inl (ParseError ''unexpected token'')"
    by code_simp
  note T = C8_loadFile_errors
  from T[of c8_world "''/proj/missing.conf''", THEN conjunct2, THEN conjunct2, THEN conjunct1] a
  have 1: "loadFile c8_world (Some ''/proj/missing.conf'') = Inr (JObj [])" by blast
  from T[of c8_world "''/proj/app-defaults.conf''" "''42''" "JNum 42",
      THEN conjunct2, THEN conjunct2, THEN conjunct2, THEN conjunct1] b
  have 2: "loadFile c8_world (Some ''/proj/app-defaults.conf'') = Inr (JObj [])" by blast
  from T[of c8_world "''/proj/empty.conf''" "''''" "JUndef",
      THEN conjunct2, THEN conjunct2, THEN conjunct2, THEN conjunct1] c
  have 3: "loadFile c8_world (Some ''/proj/empty.conf'') = Inr (JObj [])" by blast
  from T[of c8_world "''/proj/app.conf''" "''{a: [''" _ "ParseError ''unexpected token''",
      THEN conjunct2, THEN conjunct2, THEN conjunct2, THEN conjunct2, THEN conjunct1] d
  have 4: "loadFile c8_world (Some ''/proj/app.conf'') = Inl (ParseError ''unexpected token'')" by blast
  from T[of c8_world "''/proj/broken.conf.js''" _ _ "ImportError ''cannot find module''",
      THEN conjunct2, THEN conjunct2, THEN conjunct2, THEN conjunct2, THEN conjunct2, THEN conjunct1] e
  have 5: "loadFile c8_world (Some ''/proj/broken.conf.js'') = Inl (ImportError ''cannot find module'')"
    by blast
  from T[of c8_world _ _ _ "ImportError ''cannot find module''" ?lc' "JStr ''broken.conf.js''" ?lc'
        "Some ''/proj/broken.conf.js''",
      THEN conjunct2, THEN conjunct2, THEN conjunct2, THEN conjunct2, THEN conjunct2, THEN conjunct2,
      THEN conjunct1] f
  have 6: "fst (loadConfig c8_world ?lc') = Inl (ImportError ''cannot find module'')" by blast
  from T[of c8_world _ _ _ "ParseError ''unexpected token''" ?lc,
      THEN conjunct2, THEN conjunct2, THEN conjunct2, THEN conjunct2, THEN conjunct2, THEN conjunct2,
      THEN conjunct2] g
  have 7: "fst (loadConfig c8_world ?lc) = Inl (ParseError ''unexpected token'')" by blast
  from a 1 2 3 4 5 6 7 show ?thesis by blast
qed

subsection \<open>The config environment\<close>

lemma or_else_truthy: "truthy b \<Longrightarrow> truthy (or_else a b)"
  by (simp add: or_else_def)

lemma findConfigEnvironment_truthy:
  "findConfigEnvironment w lc = (Inr e, lc1) \<Longrightarrow> truthy e"
  unfolding findConfigEnvironment_def Let_def bindS_def
  by (auto split: if_splits prod.splits sum.splits simp: or_else_truthy)

lemma getConfigEnvironment_cached:
  assumes "getConfigEnvironment w lc = (Inr e, lc')"
  shows "truthy e \<and> environment lc' = e \<and> getConfigEnvironment w' lc' = (Inr e, lc')"
proof (cases "truthy (environment lc)")
  case True
  with assms show ?thesis by (auto simp: getConfigEnvironment_def)
next
  case False
  with assms obtain lc1 where f: "findConfigEnvironment w lc = (Inr e, lc1)" "lc' = lc1\<lparr>environment := e\<rparr>"
    by (auto simp: getConfigEnvironment_def bindS_def split: prod.splits sum.splits)
  have "truthy e" using f(1) by (rule findConfigEnvironment_truthy)
  then show ?thesis using f(2) by (simp add: getConfigEnvironment_def)
qed

lemma env_var_name_named:
  "truthy (getprop (options lc) opt) \<Longrightarrow>
   env_var_name w lc opt suffix = (Inr (toStr (getprop (options lc) opt)), lc)"
  by (simp add: env_var_name_def)

lemma env_var_name_derived:
  "\<not> truthy (getprop (options lc) opt) \<Longrightarrow> fst (getProjectName w lc) = Inr (JStr n) \<Longrightarrow>
   fst (env_var_name w lc opt suffix) = Inr (upper_snake n @ suffix)"
  by (cases "getProjectName w lc") (simp add: env_var_name_def project_prefix_def bindS_def)

text \<open>
  The chain of \<^verbatim>\<open>_findConfigEnvironment\<close>, in terms of the functions it calls.
\<close>

lemma environment_chain:
  "(let opts = options lc;
        override = getprop opts ''environmentOverride'';
        cli = getCLIArgument lc (or_else (getprop opts ''cliArgumentEnvironment'') (JStr ''config-env''));
        named = getprop opts ''envVariableEnvironment'';
        var = (if truthy named then toStr named else upper_snake n @ ''_ENV'');
        fallback = or_else (getprop opts ''defaultEnvironment'') (JStr ''local'');
        result = fst (getConfigEnvironment w lc)
    in \<not> truthy (environment lc) \<longrightarrow>
       (truthy override \<longrightarrow> result = Inr override) \<and>
       (\<not> truthy override \<and> truthy cli \<longrightarrow> result = Inr cli) \<and>
       (\<not> truthy override \<and> \<not> truthy cli \<and>
        (truthy named \<or> fst (getProjectName w lc) = Inr (JStr n)) \<longrightarrow>
          (truthy (process_env w var) \<longrightarrow> result = Inr (process_env w var)) \<and>
          (\<not> truthy (process_env w var) \<and> truthy (process_env w ''NODE_ENV'') \<longrightarrow>
             result = Inr (process_env w ''NODE_ENV'')) \<and>
          (\<not> truthy (process_env w var) \<and> \<not> truthy (process_env w ''NODE_ENV'') \<longrightarrow>
             result = Inr fallback))) \<and>
   (getConfigEnvironment w lc = (Inr e, lc') \<longrightarrow>
      truthy e \<and> environment lc' = e \<and> (\<forall>w'. getConfigEnvironment w' lc' = (Inr e, lc')))"
proof -
  define named where "named = getprop (options lc) ''envVariableEnvironment''"
  define var where "var = (if truthy named then toStr named else upper_snake n @ ''_ENV'')"
  have var: "fst (env_var_name w lc ''envVariableEnvironment'' ''_ENV'') = Inr var"
    if "truthy named \<or> fst (getProjectName w lc) = Inr (JStr n)"
    using that env_var_name_named[of lc "''envVariableEnvironment''" w "''_ENV''"]
      env_var_name_derived[of lc "''envVariableEnvironment''" w n "''_ENV''"]
    by (auto simp: var_def named_def)
  have chain: "fst (findConfigEnvironment w lc) =
      (if truthy (process_env w var) then Inr (process_env w var)
       else if truthy (process_env w ''NODE_ENV'') then Inr (process_env w ''NODE_ENV'')
       else Inr (or_else (getprop (options lc) ''defaultEnvironment'') (JStr ''local'')))"
    if "\<not> truthy (getprop (options lc) ''environmentOverride'')"
      "\<not> truthy (getCLIArgument lc (or_else (getprop (options lc) ''cliArgumentEnvironment'') (JStr ''config-env'')))"
      "truthy named \<or> fst (getProjectName w lc) = Inr (JStr n)"
    using that(1,2) var[OF that(3)]
    by (cases "env_var_name w lc ''envVariableEnvironment'' ''_ENV''")
       (simp add: findConfigEnvironment_def Let_def bindS_def)
  have res: "fst (getConfigEnvironment w lc) = fst (findConfigEnvironment w lc)"
    if "\<not> truthy (environment lc)"
    using that by (cases "findConfigEnvironment w lc"; cases "fst (findConfigEnvironment w lc)")
      (auto simp: getConfigEnvironment_def bindS_def)
  have first: "fst (findConfigEnvironment w lc) = Inr (getprop (options lc) ''environmentOverride'')"
    if "truthy (getprop (options lc) ''environmentOverride'')"
    using that by (simp add: findConfigEnvironment_def)
  have second: "fst (findConfigEnvironment w lc) =
      Inr (getCLIArgument lc (or_else (getprop (options lc) ''cliArgumentEnvironment'') (JStr ''config-env'')))"
    if "\<not> truthy (getprop (options lc) ''environmentOverride'')"
       "truthy (getCLIArgument lc (or_else (getprop (options lc) ''cliArgumentEnvironment'') (JStr ''config-env'')))"
    using that by (simp add: findConfigEnvironment_def Let_def)
  have cache: "truthy e \<and> environment lc' = e \<and> (\<forall>w'. getConfigEnvironment w' lc' = (Inr e, lc'))"
    if "getConfigEnvironment w lc = (Inr e, lc')"
    using getConfigEnvironment_cached[OF that] by blast
  show ?thesis
    unfolding Let_def named_def[symmetric] var_def[symmetric]
    using res first second chain cache by auto
qed

text \<open>
  What the functions of the chain compute: \<^verbatim>\<open>_getCLIArgument(name)\<close> is the member \<^verbatim>\<open>name\<close>
  of the option \<^verbatim>\<open>argv\<close>, and the name transform maps the letters \<^verbatim>\<open>a\<close> to \<^verbatim>\<open>z\<close> to upper
  case, keeps \<^verbatim>\<open>A\<close> to \<^verbatim>\<open>Z\<close> and \<^verbatim>\<open>0\<close> to \<^verbatim>\<open>9\<close>, and maps every other character to \<^verbatim>\<open>_\<close>
  (character codes: 97 to 122, 65 to 90, 48 to 57, 95).
\<close>

lemma getCLIArgument_explicit:
  "getCLIArgument lc name =
     (case (case map_of (options lc) ''argv'' of Some v \<Rightarrow> v | None \<Rightarrow> JUndef) of
        JObj argv \<Rightarrow> (case map_of argv (toStr name) of Some v \<Rightarrow> v | None \<Rightarrow> JUndef)
      | _ \<Rightarrow> JUndef)"
  by (cases "map_of (options lc) ''argv''"; cases "the (map_of (options lc) ''argv'')")
     (auto simp: getCLIArgument_def getprop_def)

lemma upper_snake_char_code:
  "(of_char (if toUpperCase_char c \<in> set ''ABCDEFGHIJKLMNOPQRSTUVWXYZ0123456789''
               then toUpperCase_char c else CHR ''_'') :: nat) =
     (let code = of_char c
      in if 97 \<le> code \<and> code \<le> 122 then code - 32
         else if (65 \<le> code \<and> code \<le> 90) \<or> (48 \<le> code \<and> code \<le> 57) then code
         else 95)"
  by (cases c) (simp add: toUpperCase_char_def Let_def)

lemma upper_snake_codes:
  "map of_char (upper_snake s) =
     map (\<lambda>c. let code = of_char c :: nat
              in if 97 \<le> code \<and> code \<le> 122 then code - 32
                 else if (65 \<le> code \<and> code \<le> 90) \<or> (48 \<le> code \<and> code \<le> 57) then code
                 else 95) s"
  by (simp only: upper_snake_def map_map comp_def upper_snake_char_code)

text \<open>
  Claim C2. On an instance with no cached environment, \<^verbatim>\<open>getConfigEnvironment\<close> follows
  the priority chain, the first truthy value winning: the option
  \<^verbatim>\<open>environmentOverride\<close>; else the member of the option \<^verbatim>\<open>argv\<close> whose name is the value
  of the option \<^verbatim>\<open>cliArgumentEnvironment\<close> (\<^verbatim>\<open>config-env\<close> when that option is not set);
  else the environment variable named by the option \<^verbatim>\<open>envVariableEnvironment\<close> or, when
  that option is unset, by the transformed project name followed by \<^verbatim>\<open>_ENV\<close>; else
  \<^verbatim>\<open>NODE_ENV\<close>; else the option \<^verbatim>\<open>defaultEnvironment\<close> or the literal \<^verbatim>\<open>local\<close>. Options,
  arguments and variables are read from the options object, its \<^verbatim>\<open>argv\<close> and the process
  environment as they stand. The result is truthy and cached: every later call on the
  instance returns it, whatever the process environment has become. The transform of
  the project name puts every letter in upper case and replaces every character
  outside \<^verbatim>\<open>[A-Z0-9]\<close> by \<^verbatim>\<open>_\<close>, character by character; the string of a string value is
  that string, and a value counts as present (truthy) unless it is \<^verbatim>\<open>undefined\<close>, \<^verbatim>\<open>null\<close>,
  \<^verbatim>\<open>false\<close>, \<^verbatim>\<open>0\<close> or the empty string.
\<close>

theorem C2_environment_priority:
  "(let look = (\<lambda>kvs k. case map_of kvs k of Some v \<Rightarrow> v | None \<Rightarrow> JUndef);
        variable = (\<lambda>name. case map_of (env w) name of Some v \<Rightarrow> JStr v | None \<Rightarrow> JUndef);
        opts = options lc;
        override = look opts ''environmentOverride'';
        cliName = (if truthy (look opts ''cliArgumentEnvironment'')
                   then toStr (look opts ''cliArgumentEnvironment'') else ''config-env'');
        cli = (case look opts ''argv'' of JObj argv \<Rightarrow> look argv cliName | _ \<Rightarrow> JUndef);
        named = look opts ''envVariableEnvironment'';
        var = (if truthy named then toStr named else upper_snake n @ ''_ENV'');
        fallback = (if truthy (look opts ''defaultEnvironment'')
                    then look opts ''defaultEnvironment'' else JStr ''local'');
        result = fst (getConfigEnvironment w lc)
    in \<not> truthy (environment lc) \<longrightarrow>
       (truthy override \<longrightarrow> result = Inr override) \<and>
       (\<not> truthy override \<and> truthy cli \<longrightarrow> result = Inr cli) \<and>
       (\<not> truthy override \<and> \<not> truthy cli \<and>
        (truthy named \<or> fst (getProjectName w lc) = Inr (JStr n)) \<longrightarrow>
          (truthy (variable var) \<longrightarrow> result = Inr (variable var)) \<and>
          (\<not> truthy (variable var) \<and> truthy (variable ''NODE_ENV'') \<longrightarrow>
             result = Inr (variable ''NODE_ENV'')) \<and>
          (\<not> truthy (variable var) \<and> \<not> truthy (variable ''NODE_ENV'') \<longrightarrow>
             result = Inr fallback))) \<and>
   (getConfigEnvironment w lc = (Inr e, lc') \<longrightarrow>
      truthy e \<and> environment lc' = e \<and> (\<forall>w'. getConfigEnvironment w' lc' = (Inr e, lc'))) \<and>
   map of_char (upper_snake s) =
     map (\<lambda>c. let code = of_char c :: nat
              in if 97 \<le> code \<and> code \<le> 122 then code - 32
                 else if (65 \<le> code \<and> code \<le> 90) \<or> (48 \<le> code \<and> code \<le> 57) then code
                 else 95) s \<and>
   toStr (JStr t) = t \<and>
   (truthy v \<longleftrightarrow> v \<noteq> JUndef \<and> v \<noteq> JNull \<and> v \<noteq> JBool False \<and> v \<noteq> JNum 0 \<and> v \<noteq> JStr [])"
proof -
  let ?look = "\<lambda>kvs k. case map_of kvs k of Some v \<Rightarrow> v | None \<Rightarrow> JUndef"
  have cli: "getCLIArgument lc (or_else (getprop (options lc) ''cliArgumentEnvironment'') (JStr ''config-env'')) =
      (case ?look (options lc) ''argv'' of
         JObj argv \<Rightarrow>
           ?look argv (if truthy (?look (options lc) ''cliArgumentEnvironment'')
                       then toStr (?look (options lc) ''cliArgumentEnvironment'')
                       else ''config-env'')
       | _ \<Rightarrow> JUndef)"
    unfolding getCLIArgument_explicit or_else_def getprop_def
    by (cases "truthy (?look (options lc) ''cliArgumentEnvironment'')")
       (simp_all only: if_True if_False toStr.simps)
  note chain = environment_chain[THEN conjunct1, of lc n w, unfolded Let_def cli,
      unfolded getprop_def process_env_def or_else_def]
  have cache: "getConfigEnvironment w lc = (Inr e, lc') \<longrightarrow>
      truthy e \<and> environment lc' = e \<and> (\<forall>w'. getConfigEnvironment w' lc' = (Inr e, lc'))"
    using getConfigEnvironment_cached[of w lc e lc'] by blast
  have present: "truthy v \<longleftrightarrow>
      v \<noteq> JUndef \<and> v \<noteq> JNull \<and> v \<noteq> JBool False \<and> v \<noteq> JNum 0 \<and> v \<noteq> JStr []"
    by (cases v) auto
  show ?thesis
    unfolding Let_def
    apply (intro conjI)
        apply (rule chain)
       apply (rule cache)
      apply (rule upper_snake_codes[unfolded Let_def])
     apply simp
    apply (rule present)
    done
qed

theorem C2_environment_priority_witness:
  "fst (getConfigEnvironment c2_world (LittleConf c2_override)) = Inr (JStr ''test'') \<and>
   fst (getConfigEnvironment c2_world (LittleConf c2_cli)) = Inr (JStr ''dev'') \<and>
   fst (getConfigEnvironment c2_world (LittleConf c2_cli_named)) = Inr (JStr ''beta'') \<and>
   fst (getProjectName c2_world (LittleConf [])) = Inr (JStr ''my.App-2'') \<and>
   upper_snake ''my.App-2'' @ ''_ENV'' = ''MY_APP_2_ENV'' \<and>
   map of_char (upper_snake ''my.App-2'') = [77, 89, 95, 65, 80, 80, 95, 50 :: nat] \<and>
   fst (getConfigEnvironment c2_world (LittleConf [])) = Inr (JStr ''staging'') \<and>
   fst (getConfigEnvironment c2_world (LittleConf c2_named)) = Inr (JStr ''qa'') \<and>
   fst (getConfigEnvironment c2_world (LittleConf c2_named_unset)) = Inr (JStr ''production'') \<and>
   fst (getConfigEnvironment c2_quiet_world (LittleConf [])) = Inr (JStr ''local'') \<and>
   getConfigEnvironment c2_quiet_world (snd (getConfigEnvironment c2_world (LittleConf []))) =
     (Inr (JStr ''staging''), snd (getConfigEnvironment c2_world (LittleConf [])))"
proof -
  have opts: "options (LittleConf c2_override) = c2_override" "options (LittleConf c2_cli) = c2_cli"
    "options (LittleConf c2_cli_named) = c2_cli_named"
    "options (LittleConf []) = []" "options (LittleConf c2_named) = c2_named"
    "options (LittleConf c2_named_unset) = c2_named_unset"
    "\<not> truthy (environment (LittleConf c2_override))" "\<not> truthy (environment (LittleConf c2_cli))"
    "\<not> truthy (environment (LittleConf c2_cli_named))"
    "\<not> truthy (environment (LittleConf []))" "\<not> truthy (environment (LittleConf c2_named))"
    "\<not> truthy (environment (LittleConf c2_named_unset))"
    by (simp_all add: LittleConf_def)
  have vars: "map_of (env c2_world) ''MY_APP_2_ENV'' = Some ''staging''"
    "map_of (env c2_world) ''DEPLOY'' = Some ''qa''"
    "map_of (env c2_world) ''STAGE'' = None"
    "map_of (env c2_world) ''NODE_ENV'' = Some ''production''"
    "map_of (env c2_quiet_world) ''MY_APP_2_ENV'' = Some []"
    "map_of (env c2_quiet_world) ''NODE_ENV'' = None"
    by code_simp+
  have name: "fst (getProjectName c2_world (LittleConf [])) = Inr (JStr ''my.App-2'')"
    "fst (getProjectName c2_quiet_world (LittleConf [])) = Inr (JStr ''my.App-2'')"
    "upper_snake ''my.App-2'' @ ''_ENV'' = ''MY_APP_2_ENV''"
    by code_simp+
  have c1: "fst (getConfigEnvironment c2_world (LittleConf c2_override)) = Inr (JStr ''test'')"
    using C2_environment_priority[where lc="LittleConf c2_override" and n="[]" and w=c2_world, THEN conjunct1]
      opts
    by (simp add: Let_def c2_override_def)
  have c2: "fst (getConfigEnvironment c2_world (LittleConf c2_cli)) = Inr (JStr ''dev'')"
    using C2_environment_priority[where lc="LittleConf c2_cli" and n="[]" and w=c2_world, THEN conjunct1]
      opts
    by (simp add: Let_def c2_cli_def)
  have c2': "fst (getConfigEnvironment c2_world (LittleConf c2_cli_named)) = Inr (JStr ''beta'')"
    using C2_environment_priority[where lc="LittleConf c2_cli_named" and n="[]" and w=c2_world, THEN conjunct1]
      opts
    by (simp add: Let_def c2_cli_named_def)
  have c3: "fst (getConfigEnvironment c2_world (LittleConf [])) = Inr (JStr ''staging'')"
    using C2_environment_priority[where lc="LittleConf []" and n="''my.App-2''" and w=c2_world, THEN conjunct1]
      opts name vars
    by (simp add: Let_def)
  have c4: "fst (getConfigEnvironment c2_world (LittleConf c2_named)) = Inr (JStr ''qa'')"
    using C2_environment_priority[where lc="LittleConf c2_named" and n="[]" and w=c2_world, THEN conjunct1]
      opts vars
    by (simp add: Let_def c2_named_def)
  have c4': "fst (getConfigEnvironment c2_world (LittleConf c2_named_unset)) = Inr (JStr ''production'')"
    using C2_environment_priority[where lc="LittleConf c2_named_unset" and n="[]" and w=c2_world,
        THEN conjunct1]
      opts vars
    by (simp add: Let_def c2_named_unset_def)
  have c5: "fst (getConfigEnvironment c2_quiet_world (LittleConf [])) = Inr (JStr ''local'')"
    using C2_environment_priority[where lc="LittleConf []" and n="''my.App-2''" and w=c2_quiet_world,
        THEN conjunct1]
      opts name vars
    by (simp add: Let_def)
  obtain lc' where run: "getConfigEnvironment c2_world (LittleConf []) = (Inr (JStr ''staging''), lc')"
    using c3 by (cases "getConfigEnvironment c2_world (LittleConf [])") simp
  have c6: "getConfigEnvironment c2_quiet_world lc' = (Inr (JStr ''staging''), lc')"
    using C2_environment_priority[where w=c2_world and lc="LittleConf []" and e="JStr ''staging''"
        and lc'=lc', THEN conjunct2, THEN conjunct1] run
    by blast
  have c7: "map of_char (upper_snake ''my.App-2'') = [77, 89, 95, 65, 80, 80, 95, 50 :: nat]"
    using C2_environment_priority[where s="''my.App-2''", THEN conjunct2, THEN conjunct2, THEN conjunct1]
    by simp
  show ?thesis using c1 c2 c2' c3 c4 c4' c5 c6 c7 name(1,3) run by simp
qed

subsection \<open>Overrides\<close>

lemma get_set_segments:
  "segs \<noteq> [] \<Longrightarrow> get_segments (JObj (set_segments t segs v)) segs = v"
  by (induction t segs v rule: set_segments.induct) (auto simp: update_conv')

lemma getPath_setPath: "objtools_getPath (JObj (objtools_setPath t p v)) p = v"
  by (simp add: objtools_getPath_def objtools_setPath_def get_set_segments)

lemma env_overrides_append:
  "env_overrides prefix (es1 @ es2) ov = env_overrides prefix es2 (env_overrides prefix es1 ov)"
  by (induction es1 arbitrary: ov) auto

lemma overlaps_Nil_right [simp]: "overlaps p []"
  by (cases p) auto

lemma get_segments_JObj_Nil: "ps \<noteq> [] \<Longrightarrow> get_segments (JObj []) ps = JUndef"
  by (cases ps) auto

lemma get_segments_non_object:
  "ps \<noteq> [] \<Longrightarrow> (\<And>kvs. c \<noteq> JObj kvs) \<Longrightarrow> get_segments c ps = JUndef"
  by (cases ps; cases c) auto

lemma get_set_other:
  "\<not> overlaps p q \<Longrightarrow> get_segments (JObj (set_segments t q v)) p = get_segments (JObj t) p"
proof (induction t q v arbitrary: p rule: set_segments.induct)
  case (1 t v)
  then show ?case by (cases p) auto
next
  case (2 t k v)
  then show ?case by (cases p) (auto simp: update_conv')
next
  case (3 t k k' ks v)
  from "3.prems" obtain a ps where p: "p = a # ps" by (cases p) auto
  show ?case
  proof (cases "a = k")
    case False
    then show ?thesis using p by (simp add: update_conv')
  next
    case True
    with "3.prems" p have no: "\<not> overlaps ps (k' # ks)" by simp
    then have ps: "ps \<noteq> []" by (cases ps) auto
    define sub where "sub = (case map_of t k of Some (JObj sub) \<Rightarrow> sub | _ \<Rightarrow> [])"
    have ih: "get_segments (JObj (set_segments sub (k' # ks) v)) ps = get_segments (JObj sub) ps"
      unfolding sub_def by (rule "3.IH"[OF no])
    have orig: "get_segments (JObj t) (k # ps) = get_segments (JObj sub) ps"
    proof (cases "map_of t k")
      case None
      then show ?thesis using ps by (simp add: sub_def get_segments_JObj_Nil)
    next
      case (Some c)
      show ?thesis
      proof (cases "\<exists>kvs. c = JObj kvs")
        case True
        then show ?thesis using Some by (auto simp: sub_def)
      next
        case False
        then have "sub = []" using Some by (cases c) (auto simp: sub_def)
        moreover have "get_segments c ps = JUndef" using ps False by (intro get_segments_non_object) auto
        ultimately show ?thesis using Some ps by (simp add: get_segments_JObj_Nil)
      qed
    qed
    have "get_segments (JObj (set_segments t (k # k' # ks) v)) (k # ps) =
          get_segments (JObj (set_segments sub (k' # ks) v)) ps"
      by (simp add: update_conv' sub_def)
    then show ?thesis using ih orig p True by simp
  qed
qed

lemma env_overrides_keeps:
  "list_all (apart prefix rest) es \<Longrightarrow>
   objtools_getPath (JObj (env_overrides prefix es ov)) rest = objtools_getPath (JObj ov) rest"
proof (induction es arbitrary: ov)
  case Nil then show ?case by simp
next
  case (Cons a es)
  obtain k v where a: "a = (k, v)" by (cases a)
  have "objtools_getPath (JObj (case match_prefix prefix k of
          Some r \<Rightarrow> objtools_setPath ov r (JStr v) | None \<Rightarrow> ov)) rest = objtools_getPath (JObj ov) rest"
    using Cons.prems a
    by (auto simp: apart_def objtools_getPath_def objtools_setPath_def get_set_other split: option.splits)
  then show ?case using Cons.IH[of "case match_prefix prefix k of
          Some r \<Rightarrow> objtools_setPath ov r (JStr v) | None \<Rightarrow> ov"] Cons.prems a by simp
qed

lemma wf_set_segments:
  "wf_json (JObj t) \<Longrightarrow> wf_json v \<Longrightarrow> wf_json (JObj (set_segments t segs v))"
proof (induction t segs v rule: set_segments.induct)
  case (1 t v) then show ?case by simp
next
  case (2 t k v) then show ?case by (simp add: distinct_update wf_props_update)
next
  case (3 t k k' ks v)
  define sub where "sub = (case map_of t k of Some (JObj sub) \<Rightarrow> sub | _ \<Rightarrow> [])"
  have "wf_json (JObj sub)"
  proof (cases "\<exists>s. map_of t k = Some (JObj s)")
    case True
    then obtain s where s: "map_of t k = Some (JObj s)" by blast
    then have "wf_json (JObj s)" using "3.prems"(1) by (auto dest: wf_props_map_of)
    then show ?thesis using s by (simp add: sub_def)
  next
    case False
    then have "sub = []" by (auto simp: sub_def split: option.splits json.splits)
    then show ?thesis by simp
  qed
  then have "wf_json (JObj (set_segments sub (k' # ks) v))"
    using "3.IH" "3.prems"(2) unfolding sub_def by simp
  then show ?case using "3.prems"(1) unfolding sub_def[symmetric]
    by (simp add: distinct_update wf_props_update sub_def[symmetric])
qed

lemma wf_setPath:
  "wf_json (JObj t) \<Longrightarrow> wf_json v \<Longrightarrow> wf_json (JObj (objtools_setPath t p v))"
  unfolding objtools_setPath_def by (rule wf_set_segments)

lemma wf_env_overrides:
  "wf_json (JObj ov) \<Longrightarrow> wf_json (JObj (env_overrides prefix es ov))"
proof (induction es arbitrary: ov)
  case Nil then show ?case by simp
next
  case (Cons a es)
  obtain k v where a: "a = (k, v)" by (cases a)
  have "wf_json (JObj (case match_prefix prefix k of
          Some r \<Rightarrow> objtools_setPath ov r (JStr v) | None \<Rightarrow> ov))"
    using Cons.prems by (cases "match_prefix prefix k") (simp_all add: wf_setPath del: wf_json.simps(1))
  then show ?case using Cons.IH a by simp
qed

lemma wf_member: "wf_json v \<Longrightarrow> wf_json (member v k)"
  by (cases v) (auto simp: getprop_def dest: wf_props_map_of split: option.splits)

lemma wf_argv_overrides:
  "wf_json argv \<Longrightarrow> wf_json (JObj ov) \<Longrightarrow> wf_json (JObj (argv_overrides argv keys ov))"
proof (induction keys arbitrary: ov)
  case Nil then show ?case by simp
next
  case (Cons k keys)
  have "wf_json (JObj (case match_prefix ''config-setting-'' k of
          Some r \<Rightarrow> objtools_setPath ov r (member argv k) | None \<Rightarrow> ov))"
    using Cons.prems
    by (cases "match_prefix ''config-setting-'' k") (simp_all add: wf_setPath wf_member del: wf_json.simps(1))
  then show ?case using Cons.IH Cons.prems(1) by simp
qed

lemma wf_collect_overrides:
  "wf_json (getprop (options lc) ''argv'') \<Longrightarrow> collect_overrides w lc = (Inr ov, lc') \<Longrightarrow>
   wf_json (JObj ov)"
proof -
  assume argv: "wf_json (getprop (options lc) ''argv'')" and "collect_overrides w lc = (Inr ov, lc')"
  then obtain p where "ov = argv_overrides (getprop (options lc) ''argv'')
           (forin_keys (or_else (getprop (options lc) ''argv'') (JObj [])))
           (env_overrides (p @ ''_CONFIG_'') (env w) [])"
    unfolding collect_overrides_def bindS_Inr by auto
  moreover have "wf_json (JObj (env_overrides (p @ ''_CONFIG_'') (env w) []))"
    by (rule wf_env_overrides) simp
  ultimately show ?thesis using argv by (simp add: wf_argv_overrides del: wf_json.simps(1))
qed

lemma get_segments_merge2:
  "wf_json (JObj s) \<Longrightarrow> segs \<noteq> [] \<Longrightarrow> scalar x \<Longrightarrow> get_segments (JObj s) segs = x \<Longrightarrow>
   get_segments (JObj (merge2 t s)) segs = x"
proof (induction segs arbitrary: t s)
  case Nil then show ?case by simp
next
  case (Cons k ks)
  have d: "distinct (map fst s)" using Cons.prems(1) by simp
  from Cons.prems(3,4) obtain c where c: "map_of s k = Some c" "get_segments c ks = x"
    by (auto split: option.splits)
  show ?case
  proof (cases ks)
    case Nil
    with c have "c = x" by simp
    then have "map_of (merge2 t s) k = Some x"
      using map_of_merge2[OF d, of t k] c(1) Cons.prems(3)
      by (cases x) (auto split: option.splits json.splits)
    then show ?thesis using Nil by simp
  next
    case (Cons k' ks')
    with c(2) Cons.prems(3) obtain sv where sv: "c = JObj sv" by (cases c) auto
    have wfsv: "wf_json (JObj sv)" using Cons.prems(1) c(1) sv by (auto dest: wf_props_map_of)
    show ?thesis
    proof (cases "\<exists>tv. map_of t k = Some (JObj tv)")
      case True
      then obtain tv where tv: "map_of t k = Some (JObj tv)" by blast
      have "map_of (merge2 t s) k = Some (JObj (merge2 tv sv))"
        using map_of_merge2[OF d, of t k] c(1) sv tv by simp
      moreover have "get_segments (JObj (merge2 tv sv)) ks = x"
        using Cons.IH[OF wfsv _ Cons.prems(3)] c(2) sv Cons by simp
      ultimately show ?thesis by simp
    next
      case False
      then have "map_of (merge2 t s) k = Some (JObj sv)"
        using map_of_merge2[OF d, of t k] c(1) sv by (auto split: option.splits json.splits)
      then show ?thesis using c(2) sv by simp
    qed
  qed
qed

lemma map_of_removeNulls_props_nonnull:
  "map_of kvs k = Some c \<Longrightarrow> c \<noteq> JNull \<Longrightarrow> map_of (removeNulls_props kvs) k = Some (removeNulls c)"
  by (induction kvs) (auto split: if_splits)

lemma get_segments_removeNulls:
  "scalar x \<Longrightarrow> get_segments v segs = x \<Longrightarrow> get_segments (removeNulls v) segs = x"
proof (induction segs arbitrary: v)
  case Nil then show ?case by (cases v) auto
next
  case (Cons k ks)
  from Cons.prems obtain kvs where v: "v = JObj kvs" by (cases v) auto
  with Cons.prems obtain c where c: "map_of kvs k = Some c" "get_segments c ks = x"
    by (auto split: option.splits)
  have "c \<noteq> JNull" using c(2) Cons.prems(1) by (cases ks) auto
  then have "map_of (removeNulls_props kvs) k = Some (removeNulls c)"
    using c(1) by (rule map_of_removeNulls_props_nonnull[rotated])
  then show ?case using Cons.IH[OF Cons.prems(1) c(2)] v by simp
qed

lemma get_segments_delete:
  "segs \<noteq> [] \<Longrightarrow> hd segs \<noteq> k \<Longrightarrow>
   get_segments (JObj (AList.delete k al)) segs = get_segments (JObj al) segs"
  by (cases segs) (auto simp: delete_conv')

lemma override_in_result:
  assumes "wf_json (JObj ov)" "scalar x" "objtools_getPath (JObj ov) p = x"
    "hd (split_on CHR ''.'' p) \<noteq> ''environments''"
  shows "objtools_getPath
           (JObj (AList.delete ''environments'' (mergeConfig (sources @ [JObj ov])))) p = x"
proof -
  let ?segs = "split_on CHR ''.'' p"
  have "get_segments (JObj (merge2 (objtools_merge [] sources) ov)) ?segs = x"
    using assms by (intro get_segments_merge2) (auto simp: objtools_getPath_def)
  then have "get_segments (removeNulls (JObj (merge2 (objtools_merge [] sources) ov))) ?segs = x"
    using assms(2) by (intro get_segments_removeNulls)
  then show ?thesis using assms(4)
    by (simp add: objtools_getPath_def mergeConfig_def objtools_merge_snoc get_segments_delete)
qed

lemma options_getProjectRootDir [simp]: "options (snd (getProjectRootDir w lc)) = options lc"
  by (simp add: getProjectRootDir_def)

lemma options_findProjectName [simp]: "options (snd (findProjectName w lc)) = options lc"
  by (auto simp: findProjectName_def bindE_def split_beta split: sum.splits)

lemma options_getProjectName [simp]: "options (snd (getProjectName w lc)) = options lc"
  using options_findProjectName[of w lc]
  by (cases "findProjectName w lc") (auto simp: getProjectName_def bindS_def split: sum.splits)

lemma options_project_prefix [simp]: "options (snd (project_prefix w lc)) = options lc"
  using options_getProjectName[of w lc]
  by (cases "getProjectName w lc") (auto simp: project_prefix_def bindS_def split: sum.splits json.splits)

lemma options_env_var_name [simp]: "options (snd (env_var_name w lc opt suffix)) = options lc"
  using options_project_prefix[of w lc]
  by (cases "project_prefix w lc") (auto simp: env_var_name_def bindS_def split: sum.splits)

lemma options_defaults_candidates [simp]: "options (snd (defaults_candidates w lc)) = options lc"
  using options_getProjectName[of w lc]
  by (cases "getProjectName w lc") (auto simp: defaults_candidates_def bindS_def split: sum.splits)

lemma options_main_candidates [simp]: "options (snd (main_candidates w lc)) = options lc"
proof -
  obtain r lc1 where e: "env_var_name w lc ''envVariableFile'' ''_CONFIG'' = (r, lc1)"
    by (cases "env_var_name w lc ''envVariableFile'' ''_CONFIG''")
  have o1: "options lc1 = options lc"
    using options_env_var_name[of w lc "''envVariableFile''" "''_CONFIG''"] e by simp
  obtain r2 lc2 where g: "getProjectName w lc1 = (r2, lc2)" by (cases "getProjectName w lc1")
  have o2: "options lc2 = options lc" using options_getProjectName[of w lc1] g o1 by simp
  show ?thesis using e g o1 o2
    by (auto simp: main_candidates_def Let_def bindS_def split: sum.splits)
qed

lemma options_load_defaults [simp]: "options (snd (load_defaults w lc)) = options lc"
proof -
  obtain r lc1 where e: "defaults_candidates w lc = (r, lc1)" by (cases "defaults_candidates w lc")
  have "options lc1 = options lc" using options_defaults_candidates[of w lc] e by simp
  then show ?thesis using e
    by (auto simp: load_defaults_def bindS_def bindE_def split_beta split: sum.splits)
qed

lemma options_load_main [simp]: "options (snd (load_main w lc)) = options lc"
proof -
  obtain r lc1 where e: "main_candidates w lc = (r, lc1)" by (cases "main_candidates w lc")
  have "options lc1 = options lc" using options_main_candidates[of w lc] e by simp
  then show ?thesis using e
    by (auto simp: load_main_def bindS_def bindE_def split_beta split: sum.splits)
qed

text \<open>
  Claim C4, as the code has it. The part of the variable name after
  \<^verbatim>\<open><PROJECT_NAME_UPPER_SNAKE>_CONFIG_\<close> is used as the dotted path as it stands: it is
  split at dots only, with no change of case and no splitting at underscores. So
  \<^verbatim>\<open>MYAPP_CONFIG_DB_HOST=foo\<close> sets the top-level key \<^verbatim>\<open>DB_HOST\<close> and leaves a
  file-sourced \<^verbatim>\<open>db.host\<close> as it is.
\<close>

theorem C4_env_overrides_counterexample:
  "fst (loadConfig c4_world (LittleConf c4_options)) =
     Inr [(''db'', JObj [(''host'', JStr ''filehost''), (''port'', JNum 5432)]), (''DB_HOST'', JStr ''foo'')] \<and>
   objtools_getPath
     (JObj [(''db'', JObj [(''host'', JStr ''filehost''), (''port'', JNum 5432)]), (''DB_HOST'', JStr ''foo'')])
     ''db.host'' = JStr ''filehost'' \<and>
   JStr ''filehost'' \<noteq> JStr ''foo''"
  by code_simp

text \<open>
  Claim C4, amended. Every environment variable whose name is the prefix followed by
  \<open>rest\<close> is assigned into the override mapping at the dotted path \<open>rest\<close>: after the
  loop the path \<open>rest\<close> holds the variable's value, unless a later matching variable
  assigns to an overlapping path. Without \<^verbatim>\<open>argv\<close> the overrides are exactly what this
  loop builds for the prefix derived from the project name. A scalar that the overrides
  hold at a path outside \<^verbatim>\<open>environments\<close> is the value of that path in the result of
  \<^verbatim>\<open>loadConfig\<close>, whatever the files contain (the \<^verbatim>\<open>argv\<close> option being well formed).
  So \<^verbatim>\<open>MYAPP_CONFIG_db.host=foo\<close> with project name \<^verbatim>\<open>myapp\<close> yields a result
  containing \<^verbatim>\<open>{db:{host:"foo"}}\<close>, over a file-sourced \<^verbatim>\<open>db.host\<close>.
\<close>

theorem C4_env_overrides:
  "(match_prefix prefix key = Some rest \<and>
    list_all (apart prefix rest) later \<longrightarrow>
      objtools_getPath (JObj (env_overrides prefix (earlier @ (key, val) # later) ov0)) rest = JStr val) \<and>
   (getProjectName w lc = (Inr (JStr n), lc') \<and> \<not> truthy (getprop (options lc) ''argv'') \<longrightarrow>
      collect_overrides w lc =
        (Inr (env_overrides (upper_snake n @ ''_CONFIG_'') (env w) []), lc')) \<and>
   (wf_json (getprop (options lc) ''argv'') \<and>
    load_defaults w lc = (Inr d, lc1) \<and> load_main w lc1 = (Inr m, lc2) \<and>
    collect_overrides w lc2 = (Inr ov, lc3) \<and> getConfigEnvironment w lc3 = (Inr e, lc4) \<and>
    scalar x \<and> objtools_getPath (JObj ov) p = x \<and>
    hd (split_on CHR ''.'' p) \<noteq> ''environments'' \<longrightarrow>
      (\<exists>r. loadConfig w lc = (Inr r, lc4) \<and> objtools_getPath (JObj r) p = x))"
proof (intro conjI impI)
  assume a: "match_prefix prefix key = Some rest \<and>
    list_all (apart prefix rest) later"
  then show "objtools_getPath (JObj (env_overrides prefix (earlier @ (key, val) # later) ov0)) rest = JStr val"
    by (simp add: env_overrides_append env_overrides_keeps getPath_setPath)
next
  assume "getProjectName w lc = (Inr (JStr n), lc') \<and> \<not> truthy (getprop (options lc) ''argv'')"
  then show "collect_overrides w lc =
        (Inr (env_overrides (upper_snake n @ ''_CONFIG_'') (env w) []), lc')"
    by (simp add: collect_overrides_def project_prefix_def bindS_def or_else_def)
next
  assume a: "wf_json (getprop (options lc) ''argv'') \<and>
    load_defaults w lc = (Inr d, lc1) \<and> load_main w lc1 = (Inr m, lc2) \<and>
    collect_overrides w lc2 = (Inr ov, lc3) \<and> getConfigEnvironment w lc3 = (Inr e, lc4) \<and>
    scalar x \<and> objtools_getPath (JObj ov) p = x \<and>
    hd (split_on CHR ''.'' p) \<noteq> ''environments''"
  have "options lc1 = options lc" using options_load_defaults[of w lc] a by simp
  moreover have "options lc2 = options lc1" using options_load_main[of w lc1] a by simp
  ultimately have "wf_json (getprop (options lc2) ''argv'')" using a by simp
  then have wf: "wf_json (JObj ov)" using a by (blast intro: wf_collect_overrides)
  let ?r = "AList.delete ''environments''
              (mergeConfig ([d, environment_block d e, m, environment_block m e] @ [JObj ov]))"
  have "loadConfig w lc = (Inr ?r, lc4)" using a by (simp add: loadConfig_def bindS_def)
  moreover have "objtools_getPath (JObj ?r) p = x"
    using wf a by (intro override_in_result) auto
  ultimately show "\<exists>r. loadConfig w lc = (Inr r, lc4) \<and> objtools_getPath (JObj r) p = x" by blast
qed

theorem C4_env_overrides_witness:
  "match_prefix ''MYAPP_CONFIG_'' ''MYAPP_CONFIG_db.host'' = Some ''db.host'' \<and>
   list_all (apart ''MYAPP_CONFIG_'' ''db.host'') [(''PATH'', ''/usr/bin''), (''MYAPP_CONFIG_db.user'', ''u'')] \<and>
   objtools_getPath
     (JObj (env_overrides ''MYAPP_CONFIG_''
        ([] @ (''MYAPP_CONFIG_db.host'', ''foo'') #
           [(''PATH'', ''/usr/bin''), (''MYAPP_CONFIG_db.user'', ''u'')]) [])) ''db.host'' = JStr ''foo'' \<and>
   fst (getProjectName c4_dotted_world (LittleConf c4_options)) = Inr (JStr ''myapp'') \<and>
   \<not> truthy (getprop (options (LittleConf c4_options)) ''argv'') \<and>
   fst (collect_overrides c4_dotted_world (LittleConf c4_options)) =
     Inr (env_overrides (upper_snake ''myapp'' @ ''_CONFIG_'') (env c4_dotted_world) []) \<and>
   env_overrides (upper_snake ''myapp'' @ ''_CONFIG_'') (env c4_dotted_world) [] =
     [(''db'', JObj [(''host'', JStr ''foo''), (''user'', JStr ''u'')])] \<and>
   fst (load_main c4_dotted_world (snd (load_defaults c4_dotted_world (LittleConf c4_options)))) =
     Inr (JObj [(''db'', JObj [(''host'', JStr ''filehost''), (''port'', JNum 5432)])]) \<and>
   hd (split_on CHR ''.'' ''db.host'') \<noteq> ''environments'' \<and>
   (\<exists>r. fst (loadConfig c4_dotted_world (LittleConf c4_options)) = Inr r \<and>
        objtools_getPath (JObj r) ''db.host'' = JStr ''foo'') \<and>
   fst (loadConfig c4_dotted_world (LittleConf c4_options)) =
     Inr [(''db'', JObj [(''host'', JStr ''foo''), (''port'', JNum 5432), (''user'', JStr ''u'')])]"
proof -
  let ?w = c4_dotted_world
  let ?lc = "LittleConf c4_options"
  let ?lc1 = "snd (load_defaults ?w ?lc)"
  let ?lc2 = "snd (load_main ?w ?lc1)"
  let ?lc3 = "snd (collect_overrides ?w ?lc2)"
  let ?lc4 = "snd (getConfigEnvironment ?w ?lc3)"
  have a: "match_prefix ''MYAPP_CONFIG_'' ''MYAPP_CONFIG_db.host'' = Some ''db.host'' \<and>
     list_all (apart ''MYAPP_CONFIG_'' ''db.host'') [(''PATH'', ''/usr/bin''), (''MYAPP_CONFIG_db.user'', ''u'')]"
    by code_simp
  have b: "getProjectName ?w ?lc = (Inr (JStr ''myapp''), snd (getProjectName ?w ?lc)) \<and>
     \<not> truthy (getprop (options ?lc) ''argv'')"
    by code_simp
  have c: "wf_json (getprop (options ?lc) ''argv'') \<and>
    load_defaults ?w ?lc = (Inr (JObj []), ?lc1) \<and>
    load_main ?w ?lc1 =
      (Inr (JObj [(''db'', JObj [(''host'', JStr ''filehost''), (''port'', JNum 5432)])]), ?lc2) \<and>
    collect_overrides ?w ?lc2 = (Inr [(''db'', JObj [(''host'', JStr ''foo''), (''user'', JStr ''u'')])], ?lc3) \<and>
    getConfigEnvironment ?w ?lc3 = (Inr (JStr ''local''), ?lc4) \<and>
    scalar (JStr ''foo'') \<and>
    objtools_getPath (JObj [(''db'', JObj [(''host'', JStr ''foo''), (''user'', JStr ''u'')])]) ''db.host'' = JStr ''foo'' \<and>
    hd (split_on CHR ''.'' ''db.host'') \<noteq> ''environments''"
    by code_simp
  have d: "env_overrides (upper_snake ''myapp'' @ ''_CONFIG_'') (env ?w) [] =
     [(''db'', JObj [(''host'', JStr ''foo''), (''user'', JStr ''u'')])]"
    "fst (loadConfig ?w ?lc) = Inr [(''db'', JObj [(''host'', JStr ''foo''), (''port'', JNum 5432), (''user'', JStr ''u'')])]"
    by code_simp+
  note T = C4_env_overrides
  from T[THEN conjunct1, rule_format, OF a, of "[]" "''foo''" "[]"]
  have 1: "objtools_getPath
     (JObj (env_overrides ''MYAPP_CONFIG_''
        ([] @ (''MYAPP_CONFIG_db.host'', ''foo'') #
           [(''PATH'', ''/usr/bin''), (''MYAPP_CONFIG_db.user'', ''u'')]) [])) ''db.host'' = JStr ''foo''" .
  from T[THEN conjunct2, THEN conjunct1, rule_format, OF b]
  have 2: "fst (collect_overrides ?w ?lc) =
     Inr (env_overrides (upper_snake ''myapp'' @ ''_CONFIG_'') (env ?w) [])" by simp
  from T[THEN conjunct2, THEN conjunct2, rule_format, OF c]
  have 3: "\<exists>r. fst (loadConfig ?w ?lc) = Inr r \<and> objtools_getPath (JObj r) ''db.host'' = JStr ''foo''"
    by auto
  have 4: "fst (getProjectName ?w ?lc) = Inr (JStr ''myapp'')" using b by (metis fst_conv)
  have 5: "fst (load_main ?w ?lc1) =
     Inr (JObj [(''db'', JObj [(''host'', JStr ''filehost''), (''port'', JNum 5432)])])"
    using c by (metis fst_conv)
  from a b c 1 2 3 4 5 d show ?thesis by blast
qed

subsection \<open>The memoized wrapper\<close>

lemma getConfig_hit:
  "configCache s (sha1 (JSON_stringify opts)) = Some r \<Longrightarrow> getConfig w s opts = (Inr r, s)"
  by (simp add: getConfig_def)

lemma getConfig_Inr_slot:
  "getConfig w s opts = (Inr r, s1) \<Longrightarrow> configCache s1 (sha1 (JSON_stringify opts)) = Some r"
  by (auto simp: getConfig_def Let_def split: option.splits sum.splits)

lemma getConfig_miss:
  "configCache s (sha1 (JSON_stringify opts)) = None \<Longrightarrow> getConfig w s opts = (Inr r, s1) \<Longrightarrow>
   r = length (objects s) \<and> objects s1 = objects s @ [objects s1 ! r] \<and>
   fst (loadConfig w (LittleConf opts)) = Inr (objects s1 ! r)"
  by (auto simp: getConfig_def Let_def split: sum.splits)

text \<open>
  Claim C9, as the code has it. The cache key is the hash of \<^verbatim>\<open>JSON.stringify(options)\<close>,
  which follows the order of the keys. Here two options objects are deep-equal and
  list their keys in different orders; they get different hashes. The first call
  returns the object 0; the second call misses the cache, loads the files again (the
  file has changed in between) and returns another object, 1, with the new content.
\<close>

theorem C9_cache_counterexample:
  "deep_equal (JObj c9_options) (JObj c9_reordered) \<and>
   JSON_stringify c9_options = ''{\"projectName\":\"app\",\"rootDir\":\"/proj\"}'' \<and>
   JSON_stringify c9_reordered = ''{\"rootDir\":\"/proj\",\"projectName\":\"app\"}'' \<and>
   sha1 (JSON_stringify c9_options) = ''a7566bf8300a1065339f67c87710c23dd46c1206'' \<and>
   sha1 (JSON_stringify c9_reordered) = ''3054109013c99c9918d62b8eb05dbab0169ec723'' \<and>
   fst (getConfig c9_world initial_state c9_options) = Inr 0 \<and>
   objects (snd (getConfig c9_world initial_state c9_options)) = [[(''a'', JNum 1)]] \<and>
   configCache (snd (getConfig c9_world initial_state c9_options))
     (sha1 (JSON_stringify c9_reordered)) = None \<and>
   fst (getConfig c9_later_world (snd (getConfig c9_world initial_state c9_options)) c9_reordered) =
     Inr 1 \<and>
   objects (snd (getConfig c9_later_world (snd (getConfig c9_world initial_state c9_options))
                   c9_reordered)) = [[(''a'', JNum 1)], [(''a'', JNum 2)]] \<and>
   (Inr 1 :: error + ref) \<noteq> Inr 0"
  by (intro conjI; code_simp)

text \<open>
  Claim C9, amended. When the second options object serializes to the same JSON text as
  the first, the second call returns the very object that the first call returned, the
  one stored in the slot of the hash, and leaves the module state as it is (no object
  is created), whatever the file system and the environment have become: no file is
  loaded. When the first call found the slot empty, that object is the new one holding
  the result of its \<^verbatim>\<open>loadConfig\<close>. The cache is one mapping for the process, keyed by the
  SHA-1 hash of the serialized options.
\<close>

theorem C9_cache_hit:
  "JSON_stringify o1 = JSON_stringify o2 \<and> getConfig w s o1 = (Inr r, s1) \<longrightarrow>
     configCache s1 (sha1 (JSON_stringify o1)) = Some r \<and>
     (configCache s (sha1 (JSON_stringify o1)) = None \<longrightarrow>
        r = length (objects s) \<and> objects s1 = objects s @ [objects s1 ! r] \<and>
        fst (loadConfig w (LittleConf o1)) = Inr (objects s1 ! r)) \<and>
     (\<forall>w'. getConfig w' s1 o2 = (Inr r, s1))"
proof (intro impI)
  assume a: "JSON_stringify o1 = JSON_stringify o2 \<and> getConfig w s o1 = (Inr r, s1)"
  then have slot: "configCache s1 (sha1 (JSON_stringify o1)) = Some r"
    by (blast intro: getConfig_Inr_slot)
  then have "configCache s1 (sha1 (JSON_stringify o2)) = Some r" using a by simp
  then have again: "getConfig w' s1 o2 = (Inr r, s1)" for w' by (rule getConfig_hit)
  have miss: "configCache s (sha1 (JSON_stringify o1)) = None \<longrightarrow>
        r = length (objects s) \<and> objects s1 = objects s @ [objects s1 ! r] \<and>
        fst (loadConfig w (LittleConf o1)) = Inr (objects s1 ! r)"
    using a getConfig_miss[of s o1 w r s1] by blast
  from slot miss again
  show "configCache s1 (sha1 (JSON_stringify o1)) = Some r \<and>
     (configCache s (sha1 (JSON_stringify o1)) = None \<longrightarrow>
        r = length (objects s) \<and> objects s1 = objects s @ [objects s1 ! r] \<and>
        fst (loadConfig w (LittleConf o1)) = Inr (objects s1 ! r)) \<and>
     (\<forall>w'. getConfig w' s1 o2 = (Inr r, s1))"
    by blast
qed

theorem C9_cache_hit_witness:
  "JSON_stringify c9_options = JSON_stringify c9_same_content \<and>
   JSON_stringify c9_same_content = JSON_stringify c9_same_content_reordered \<and>
   fst (getConfig c9_world initial_state c9_options) = Inr 0 \<and>
   objects (snd (getConfig c9_world initial_state c9_options)) = [[(''a'', JNum 1)]] \<and>
   getConfig c9_later_world (snd (getConfig c9_world initial_state c9_options)) c9_same_content =
     (Inr 0, snd (getConfig c9_world initial_state c9_options)) \<and>
   getConfig c9_later_world (snd (getConfig c9_world initial_state c9_options))
       c9_same_content_reordered =
     (Inr 0, snd (getConfig c9_world initial_state c9_options)) \<and>
   fst (loadConfig c9_later_world (LittleConf c9_same_content)) = Inr [(''a'', JNum 2)]"
proof -
  have a: "JSON_stringify c9_options = JSON_stringify c9_same_content"
    "JSON_stringify c9_same_content = JSON_stringify c9_same_content_reordered"
    by code_simp+
  have f: "fst (getConfig c9_world initial_state c9_options) = Inr 0"
    "objects (snd (getConfig c9_world initial_state c9_options)) = [[(''a'', JNum 1)]]"
    by code_simp+
  have b: "fst (loadConfig c9_later_world (LittleConf c9_same_content)) = Inr [(''a'', JNum 2)]"
    by code_simp
  obtain s1 where run: "getConfig c9_world initial_state c9_options = (Inr 0, s1)"
    using f(1) by (cases "getConfig c9_world initial_state c9_options") simp
  from C9_cache_hit[rule_format, OF conjI[OF a(1) run]]
  have h1: "getConfig c9_later_world s1 c9_same_content = (Inr 0, s1)" by blast
  from C9_cache_hit[rule_format, OF conjI[OF a(2) h1]]
  have h2: "getConfig c9_later_world s1 c9_same_content_reordered = (Inr 0, s1)" by blast
  from a f b run h1 h2 show ?thesis by simp
qed

text \<open>
  Claim C10. When \<^verbatim>\<open>loadConfig\<close> throws, \<^verbatim>\<open>getConfig\<close> throws the same error and leaves
  the module state unchanged; the slot of these options is empty. A later call with
  the same options therefore runs \<^verbatim>\<open>loadConfig\<close> afresh: it fails or succeeds as that load
  does, and fills the slot, with the new object, only when it succeeds.
\<close>

theorem C10_failure_not_cached:
  "getConfig w s opts = (Inl e, s') \<longrightarrow>
     s' = s \<and> configCache s (sha1 (JSON_stringify opts)) = None \<and>
     fst (loadConfig w (LittleConf opts)) = Inl e \<and>
     (\<forall>w'. getConfig w' s' opts =
        (case fst (loadConfig w' (LittleConf opts)) of
           Inl e' \<Rightarrow> (Inl e', s)
         | Inr config \<Rightarrow>
             (Inr (length (objects s)),
              s\<lparr>objects := objects s @ [config],
                configCache := (configCache s)(sha1 (JSON_stringify opts) \<mapsto> length (objects s))\<rparr>)))"
  by (auto simp: getConfig_def Let_def split: option.splits sum.splits)

theorem C10_failure_not_cached_witness:
  "getConfig c8_world initial_state c8_options =
     (Inl (ParseError ''unexpected token''), initial_state) \<and>
   fst (loadConfig c8_world (LittleConf c8_options)) = Inl (ParseError ''unexpected token'') \<and>
   fst (loadConfig c9_world (LittleConf c8_options)) = Inr [(''a'', JNum 1)] \<and>
   getConfig c9_world initial_state c8_options =
     (Inr 0, \<lparr>objects = [[(''a'', JNum 1)]],
              configCache = Map.empty(sha1 (JSON_stringify c8_options) \<mapsto> 0)\<rparr>)"
proof -
  have f: "fst (getConfig c8_world initial_state c8_options) = Inl (ParseError ''unexpected token'')"
    by code_simp
  have l: "fst (loadConfig c9_world (LittleConf c8_options)) = Inr [(''a'', JNum 1)]"
    "fst (loadConfig c8_world (LittleConf c8_options)) = Inl (ParseError ''unexpected token'')"
    by code_simp+
  obtain s' where run:
    "getConfig c8_world initial_state c8_options = (Inl (ParseError ''unexpected token''), s')"
    using f by (cases "getConfig c8_world initial_state c8_options") simp
  from C10_failure_not_cached[rule_format, OF run]
  have s: "s' = initial_state"
    and again: "getConfig w' s' c8_options =
        (case fst (loadConfig w' (LittleConf c8_options)) of
           Inl e' \<Rightarrow> (Inl e', initial_state)
         | Inr config \<Rightarrow>
             (Inr (length (objects initial_state)),
              initial_state\<lparr>objects := objects initial_state @ [config],
                configCache := (configCache initial_state)(sha1 (JSON_stringify c8_options) \<mapsto>
                  length (objects initial_state))\<rparr>))" for w'
    by blast+
  from again[of c9_world] again[of c8_world] s l run show ?thesis
    by (simp add: initial_state_def)
qed

end
